theory Spec2Isabelle
  imports
    Main
    "HOL-Library.Word"
    "HOL-Library.Char_ord"
    "HOL-Library.List_Lexorder"
    "HOL-Library.AList"
    "HOL-Library.Mapping"
    "HOL-Library.AList_Mapping"
begin

unbundle bit_operations_syntax

section \<open>Go values\<close>

text \<open>
  Go strings are byte strings and are compared bytewise, which is the lexicographic
  order on \<^typ>\<open>char list\<close>.  A Go \<open>int\<close> is 64 bits wide here; it is modelled as an
  \<^typ>\<open>int\<close>, and the one place of the program that does arithmetic on configured
  values (milliseconds to \<open>time.Duration\<close>) wraps explicitly.  A slice or map that may
  be \<open>nil\<close> is an \<open>option\<close>: \<open>None\<close> is \<open>nil\<close>, \<open>Some []\<close> the empty non-nil slice.
\<close>

definition wrap64 :: "int \<Rightarrow> int" where
  "wrap64 x = (x + 2 ^ 63) mod 2 ^ 64 - 2 ^ 63"

text \<open>Go's integer division truncates towards zero.\<close>

definition go_div :: "int \<Rightarrow> int \<Rightarrow> int" where
  "go_div a b = sgn a * sgn b * (\<bar>a\<bar> div \<bar>b\<bar>)"

definition Millisecond :: int where
  "Millisecond = 1000000"

text \<open>\<open>time.Duration(ms) * time.Millisecond\<close>, an \<open>int64\<close> product.\<close>

definition ms_duration :: "int \<Rightarrow> int" where
  "ms_duration ms = wrap64 (ms * Millisecond)"

text \<open>\<open>int(d / time.Millisecond)\<close>\<close>

definition duration_ms :: "int \<Rightarrow> int" where
  "duration_ms d = go_div d Millisecond"

text \<open>Ranging over a possibly-nil slice.\<close>

definition slice :: "'a list option \<Rightarrow> 'a list" where
  "slice xs = (case xs of None \<Rightarrow> [] | Some ys \<Rightarrow> ys)"

section \<open>client: the configuration values\<close>

definition RoundRobin :: string where "RoundRobin = ''RR''"
definition LeastConn :: string where "LeastConn = ''LC''"
definition DefaultTimeout :: int where "DefaultTimeout = 2000"
definition DefaultCheckInterval :: int where "DefaultCheckInterval = 5000"
definition DefaultNet :: string where "DefaultNet = ''tcp''"
definition DefaultWeight :: int where "DefaultWeight = 1"
definition DefaultBalance :: string where "DefaultBalance = RoundRobin"
definition DefaultFall :: int where "DefaultFall = 2"
definition DefaultRise :: int where "DefaultRise = 2"

record BackendConfig =
  bc_Name :: string
  bc_Addr :: string
  bc_Network :: string
  bc_CheckAddr :: string
  bc_Weight :: int

definition BackendConfig_SetDefaults :: "BackendConfig \<Rightarrow> BackendConfig" where
  "BackendConfig_SetDefaults b =
     (let b1 = (if bc_Weight b = 0 then b\<lparr>bc_Weight := DefaultWeight\<rparr> else b);
          b2 = (if bc_Network b1 = '''' then b1\<lparr>bc_Network := DefaultNet\<rparr> else b1)
      in b2)"

definition BackendConfig_Equal :: "BackendConfig \<Rightarrow> BackendConfig \<Rightarrow> bool" where
  "BackendConfig_Equal b other =
     (BackendConfig_SetDefaults b = BackendConfig_SetDefaults other)"

text \<open>
  \<open>ErrorPages\<close> is a \<open>map[string][]int\<close>: the map and each of its values may be \<open>nil\<close>,
  and \<open>reflect.DeepEqual\<close> tells \<open>nil\<close> from empty, as equality on these options does.
\<close>

type_synonym error_pages = "(string, int list option) mapping option"

record ServiceConfig =
  sc_Name :: string
  sc_Addr :: string
  sc_Network :: string
  sc_Balance :: string
  sc_CheckInterval :: int
  sc_Fall :: int
  sc_Rise :: int
  sc_ClientTimeout :: int
  sc_ServerTimeout :: int
  sc_DialTimeout :: int
  sc_HTTPSRedirect :: bool
  sc_VirtualHosts :: "string list option"
  sc_ErrorPages :: error_pages
  sc_Backends :: "BackendConfig list option"
  sc_MaintenanceMode :: bool

definition ServiceConfig_SetDefaults :: "ServiceConfig \<Rightarrow> ServiceConfig" where
  "ServiceConfig_SetDefaults s =
     s\<lparr>sc_Balance := (if sc_Balance s = '''' then DefaultBalance else sc_Balance s),
       sc_CheckInterval :=
         (if sc_CheckInterval s = 0 then DefaultCheckInterval else sc_CheckInterval s),
       sc_ClientTimeout :=
         (if sc_ClientTimeout s = 0 then DefaultTimeout else sc_ClientTimeout s),
       sc_ServerTimeout :=
         (if sc_ServerTimeout s = 0 then DefaultTimeout else sc_ServerTimeout s),
       sc_Rise := (if sc_Rise s = 0 then DefaultRise else sc_Rise s),
       sc_Fall := (if sc_Fall s = 0 then DefaultFall else sc_Fall s),
       sc_Network := (if sc_Network s = '''' then DefaultNet else sc_Network s)\<rparr>"

text \<open>
  \<open>ServiceConfig.Equal\<close>: both copies lose their backends and get their defaults, the
  receiver's \<open>VirtualHosts\<close> are sorted (twice: the argument's are not), and the two
  structs are compared with \<open>reflect.DeepEqual\<close>.  The sort is in place; this definition
  is the result for two configs whose \<open>VirtualHosts\<close> do not share storage.
\<close>

definition ServiceConfig_Equal :: "ServiceConfig \<Rightarrow> ServiceConfig \<Rightarrow> bool" where
  "ServiceConfig_Equal s other =
     (let s1 = ServiceConfig_SetDefaults (s\<lparr>sc_Backends := None\<rparr>);
          other1 = ServiceConfig_SetDefaults (other\<lparr>sc_Backends := None\<rparr>);
          s2 = s1\<lparr>sc_VirtualHosts := map_option sort (sc_VirtualHosts s1)\<rparr>
      in s2 = other1)"

definition Merge :: "ServiceConfig \<Rightarrow> ServiceConfig \<Rightarrow> ServiceConfig" where
  "Merge s cfg =
     s\<lparr>sc_Name := sc_Name cfg,
       sc_Addr := (if sc_Addr cfg \<noteq> '''' then sc_Addr cfg else sc_Addr s),
       sc_Network := (if sc_Network cfg \<noteq> '''' then sc_Network cfg else sc_Network s),
       sc_Balance := (if sc_Balance cfg \<noteq> '''' then sc_Balance cfg else sc_Balance s),
       sc_CheckInterval :=
         (if sc_CheckInterval cfg \<noteq> 0 then sc_CheckInterval cfg else sc_CheckInterval s),
       sc_Fall := (if sc_Fall cfg \<noteq> 0 then sc_Fall cfg else sc_Fall s),
       sc_Rise := (if sc_Rise cfg \<noteq> 0 then sc_Rise cfg else sc_Rise s),
       sc_ClientTimeout :=
         (if sc_ClientTimeout cfg \<noteq> 0 then sc_ClientTimeout cfg else sc_ClientTimeout s),
       sc_ServerTimeout :=
         (if sc_ServerTimeout cfg \<noteq> 0 then sc_ServerTimeout cfg else sc_ServerTimeout s),
       sc_DialTimeout :=
         (if sc_DialTimeout cfg \<noteq> 0 then sc_DialTimeout cfg else sc_DialTimeout s),
       sc_VirtualHosts :=
         (if sc_VirtualHosts cfg \<noteq> None then sc_VirtualHosts cfg else sc_VirtualHosts s),
       sc_ErrorPages :=
         (if sc_ErrorPages cfg \<noteq> None then sc_ErrorPages cfg else sc_ErrorPages s),
       sc_Backends := (if sc_Backends cfg \<noteq> None then sc_Backends cfg else sc_Backends s),
       sc_HTTPSRedirect := sc_HTTPSRedirect cfg,
       sc_MaintenanceMode := sc_MaintenanceMode cfg\<rparr>"

text \<open>The zero value of \<open>ServiceConfig\<close>.\<close>

definition ServiceConfig_zero :: ServiceConfig where
  "ServiceConfig_zero =
     \<lparr>sc_Name = '''', sc_Addr = '''', sc_Network = '''', sc_Balance = '''',
      sc_CheckInterval = 0, sc_Fall = 0, sc_Rise = 0, sc_ClientTimeout = 0,
      sc_ServerTimeout = 0, sc_DialTimeout = 0, sc_HTTPSRedirect = False,
      sc_VirtualHosts = None, sc_ErrorPages = None, sc_Backends = None,
      sc_MaintenanceMode = False\<rparr>"

section \<open>Backends\<close>

text \<open>
  Modelled from the spec: the \<open>Backend\<close> struct (its file is not among the sources).
  The fields are the ones the service code reads and writes: identity, address,
  network, probe address, weight, the health flag, the timeouts inherited from the
  owning service in \<open>Service.add\<close>, and the \<open>Active\<close> counter that least-connected
  balancing sorts by.  The health-probe task that \<open>Start\<close> and \<open>Stop\<close> control is not
  modelled.
\<close>

record Backend =
  b_Name :: string
  b_Addr :: string
  b_Network :: string
  b_CheckAddr :: string
  b_Weight :: int
  b_up :: bool
  b_rwTimeout :: int
  b_dialTimeout :: int
  b_checkInterval :: int
  b_Active :: int

text \<open>
  Modelled from the spec: \<open>NewBackend\<close> copies the configuration into a fresh backend,
  with the documented defaults (\<open>weight=1\<close>, \<open>network=tcp\<close>) and all counters at zero.
\<close>

definition NewBackend :: "BackendConfig \<Rightarrow> Backend" where
  "NewBackend cfg =
     (let c = BackendConfig_SetDefaults cfg
      in \<lparr>b_Name = bc_Name c, b_Addr = bc_Addr c, b_Network = bc_Network c,
          b_CheckAddr = bc_CheckAddr c, b_Weight = bc_Weight c, b_up = False,
          b_rwTimeout = 0, b_dialTimeout = 0, b_checkInterval = 0, b_Active = 0\<rparr>)"

text \<open>Modelled from the spec: \<open>Backend.Config\<close> is a snapshot of the configured fields.\<close>

definition Backend_Config :: "Backend \<Rightarrow> BackendConfig" where
  "Backend_Config b =
     \<lparr>bc_Name = b_Name b, bc_Addr = b_Addr b, bc_Network = b_Network b,
      bc_CheckAddr = b_CheckAddr b, bc_Weight = b_Weight b\<rparr>"

section \<open>Services\<close>

datatype balancer = RoundRobinPolicy | LeastConnPolicy

text \<open>
  The fields of \<open>Service\<close> that the modelled code reads or writes.  \<open>s_next\<close> stands for
  the function field \<open>next\<close>, which holds one of the two balancers, and \<open>s_listening\<close>
  for an open listener; the dialer, the reverse proxy and the cache of fetched error
  pages are left out.  Durations are in nanoseconds, as \<open>time.Duration\<close> counts them.
\<close>

record Service =
  s_Name :: string
  s_Addr :: string
  s_HTTPSRedirect :: bool
  s_VirtualHosts :: "string list option"
  s_Backends :: "Backend list"
  s_Balance :: string
  s_CheckInterval :: int
  s_Fall :: int
  s_Rise :: int
  s_ClientTimeout :: int
  s_ServerTimeout :: int
  s_DialTimeout :: int
  s_Sent :: int
  s_Rcvd :: int
  s_Errors :: int
  s_HTTPConns :: int
  s_HTTPErrors :: int
  s_HTTPActive :: int
  s_Network :: string
  s_MaintenanceMode :: bool
  s_next :: balancer
  s_lastBackend :: int
  s_lastCount :: int
  s_listening :: bool
  s_errPagesCfg :: error_pages

text \<open>
  \<open>Service.add\<close>.  The two \<open>[:3]\<close> slices panic on a network name shorter than three
  bytes (\<open>None\<close>).  A backend of another network family is logged and installed all the
  same: the loop below runs whatever the comparison said.
\<close>

fun replace_backend :: "Backend list \<Rightarrow> Backend \<Rightarrow> Backend list option" where
  "replace_backend [] backend = None"
| "replace_backend (b # bs) backend =
     (if b_Name b = b_Name backend then Some (backend # bs)
      else map_option (\<lambda>bs'. b # bs') (replace_backend bs backend))"

definition add :: "Service \<Rightarrow> Backend \<Rightarrow> Service option" where
  "add s backend0 =
     (let backend = backend0\<lparr>b_up := True, b_rwTimeout := s_ServerTimeout s,
            b_dialTimeout := s_DialTimeout s,
            b_checkInterval := ms_duration (s_CheckInterval s)\<rparr>
      in if length (s_Network s) < 3 \<or> length (b_Network backend) < 3 then None
         else (case replace_backend (s_Backends s) backend of
                 Some bs \<Rightarrow> Some (s\<lparr>s_Backends := bs\<rparr>)
               | None \<Rightarrow> Some (s\<lparr>s_Backends := s_Backends s @ [backend]\<rparr>)))"

text \<open>\<open>Service.remove\<close>: the found entry is overwritten by the last one, which is cut off.\<close>

fun index_of_name :: "Backend list \<Rightarrow> string \<Rightarrow> nat option" where
  "index_of_name [] name = None"
| "index_of_name (b # bs) name =
     (if b_Name b = name then Some 0 else map_option Suc (index_of_name bs name))"

definition remove :: "Service \<Rightarrow> string \<Rightarrow> bool \<times> Service" where
  "remove s name =
     (case index_of_name (s_Backends s) name of
        None \<Rightarrow> (False, s)
      | Some i \<Rightarrow>
          (True, s\<lparr>s_Backends := butlast ((s_Backends s)[i := last (s_Backends s)])\<rparr>))"

definition balancer_of :: "string \<Rightarrow> balancer" where
  "balancer_of balance =
     (if balance = RoundRobin then RoundRobinPolicy
      else if balance = LeastConn then LeastConnPolicy
      else RoundRobinPolicy)"

fun add_all :: "Service \<Rightarrow> BackendConfig list \<Rightarrow> Service option" where
  "add_all s [] = Some s"
| "add_all s (b # bs) =
     (case add s (NewBackend b) of None \<Rightarrow> None | Some s' \<Rightarrow> add_all s' bs)"

text \<open>
  \<open>NewService\<close>.  \<open>lastBackend\<close> and \<open>lastCount\<close> keep Go's zero value; the listener is
  opened by \<open>start\<close>.  \<open>None\<close> is the panic of \<open>add\<close>.
\<close>

definition NewService :: "ServiceConfig \<Rightarrow> Service option" where
  "NewService cfg =
     (let s = \<lparr>s_Name = sc_Name cfg, s_Addr = sc_Addr cfg,
                s_HTTPSRedirect = sc_HTTPSRedirect cfg,
                s_VirtualHosts = sc_VirtualHosts cfg, s_Backends = [],
                s_Balance = sc_Balance cfg,
                s_CheckInterval =
                  (if sc_CheckInterval cfg = 0 then DefaultCheckInterval
                   else sc_CheckInterval cfg),
                s_Fall = (if sc_Fall cfg = 0 then DefaultFall else sc_Fall cfg),
                s_Rise = (if sc_Rise cfg = 0 then DefaultRise else sc_Rise cfg),
                s_ClientTimeout = ms_duration (sc_ClientTimeout cfg),
                s_ServerTimeout = ms_duration (sc_ServerTimeout cfg),
                s_DialTimeout = ms_duration (sc_DialTimeout cfg),
                s_Sent = 0, s_Rcvd = 0, s_Errors = 0, s_HTTPConns = 0,
                s_HTTPErrors = 0, s_HTTPActive = 0,
                s_Network = (if sc_Network cfg = '''' then DefaultNet else sc_Network cfg),
                s_MaintenanceMode = sc_MaintenanceMode cfg,
                s_next = balancer_of (sc_Balance cfg),
                s_lastBackend = 0, s_lastCount = 0, s_listening = False,
                s_errPagesCfg = sc_ErrorPages cfg\<rparr>
      in add_all s (slice (sc_Backends cfg)))"

datatype error =
    ErrNoService
  | ErrNoBackend
  | ErrDuplicateService
  | ErrDuplicateBackend
  | ErrInvalidServiceUpdate
  | ErrPortConflict string string
  | ErrUnknownNetwork string
  | ErrListen string

text \<open>\<open>Service.UpdateConfig\<close>: \<open>Addr\<close> and \<open>ClientTimeout\<close> are compared, never assigned.\<close>

definition Service_UpdateConfig :: "Service \<Rightarrow> ServiceConfig \<Rightarrow> error + Service" where
  "Service_UpdateConfig s cfg =
     (if s_ClientTimeout s \<noteq> ms_duration (sc_ClientTimeout cfg) then Inl ErrInvalidServiceUpdate
      else if s_Addr s \<noteq> '''' \<and> s_Addr s \<noteq> sc_Addr cfg then Inl ErrInvalidServiceUpdate
      else
        (let s1 = s\<lparr>s_CheckInterval := sc_CheckInterval cfg, s_Fall := sc_Fall cfg,
                    s_Rise := sc_Rise cfg,
                    s_ServerTimeout := ms_duration (sc_ServerTimeout cfg),
                    s_DialTimeout := ms_duration (sc_DialTimeout cfg),
                    s_HTTPSRedirect := sc_HTTPSRedirect cfg,
                    s_MaintenanceMode := sc_MaintenanceMode cfg\<rparr>
         in Inr (if s_Balance s1 \<noteq> sc_Balance cfg
                 then s1\<lparr>s_Balance := sc_Balance cfg, s_next := balancer_of (sc_Balance cfg)\<rparr>
                 else s1)))"

text \<open>
  \<open>Service.config\<close>.  \<open>Backends\<close> is built by \<open>append\<close> from a nil slice, so a service
  without backends reports \<open>nil\<close>.
\<close>

definition config :: "Service \<Rightarrow> ServiceConfig" where
  "config s =
     \<lparr>sc_Name = s_Name s, sc_Addr = s_Addr s, sc_Network = s_Network s,
      sc_Balance = s_Balance s, sc_CheckInterval = s_CheckInterval s,
      sc_Fall = s_Fall s, sc_Rise = s_Rise s,
      sc_ClientTimeout = duration_ms (s_ClientTimeout s),
      sc_ServerTimeout = duration_ms (s_ServerTimeout s),
      sc_DialTimeout = duration_ms (s_DialTimeout s),
      sc_HTTPSRedirect = s_HTTPSRedirect s,
      sc_VirtualHosts = s_VirtualHosts s,
      sc_ErrorPages = s_errPagesCfg s,
      sc_Backends =
        (if s_Backends s = [] then None else Some (map Backend_Config (s_Backends s))),
      sc_MaintenanceMode = s_MaintenanceMode s\<rparr>"

definition Available :: "Service \<Rightarrow> int" where
  "Available s =
     (if s_MaintenanceMode s then 0 else int (length (filter b_up (s_Backends s))))"

section \<open>Balancing\<close>

text \<open>
  Modelled from the spec: weighted round-robin (the function \<open>roundRobin\<close> is not among
  the sources).  It works on the Up backends, \<open>N\<close> of them: if
  \<open>lastCount < weight(lastBackend)\<close> the count goes up and the head stays, otherwise
  \<open>lastBackend := (lastBackend + 1) mod N\<close> and \<open>lastCount := 1\<close>; the list is returned
  rotated so that \<open>lastBackend\<close> is its head, and it is empty when no backend is Up.
  An index left out of range by a removal is treated as exhausted.
\<close>

definition roundRobin :: "Service \<Rightarrow> Backend list \<times> Service" where
  "roundRobin s =
     (let ups = filter b_up (s_Backends s); N = int (length ups)
      in if N = 0 then ([], s)
         else if 0 \<le> s_lastBackend s \<and> s_lastBackend s < N
                 \<and> s_lastCount s < b_Weight (ups ! nat (s_lastBackend s))
         then (rotate (nat (s_lastBackend s)) ups, s\<lparr>s_lastCount := s_lastCount s + 1\<rparr>)
         else (let nb = (s_lastBackend s + 1) mod N
               in (rotate (nat nb) ups, s\<lparr>s_lastBackend := nb, s_lastCount := 1\<rparr>)))"

text \<open>
  Modelled from the spec: least-connected (\<open>leastConn\<close> is not among the sources)
  returns the Up backends sorted ascending by \<open>Active\<close>, ties in their current order.
\<close>

definition leastConn :: "Service \<Rightarrow> Backend list \<times> Service" where
  "leastConn s = (sort_key b_Active (filter b_up (s_Backends s)), s)"

text \<open>The call \<open>s.next()\<close> through the function field set by \<open>NewService\<close>.\<close>

definition next_backends :: "Service \<Rightarrow> Backend list \<times> Service" where
  "next_backends s =
     (case s_next s of RoundRobinPolicy \<Rightarrow> roundRobin s | LeastConnPolicy \<Rightarrow> leastConn s)"

definition NextAddrs :: "Service \<Rightarrow> string list \<times> Service" where
  "NextAddrs s = (case next_backends s of (backends, s') \<Rightarrow> (map b_Addr backends, s'))"

text \<open>
  Modelled from the spec: \<open>udpRoundRobin\<close> (not among the sources) asks the
  balancer for one backend, \<open>nil\<close> when none is Up.
\<close>

definition udpRoundRobin :: "Service \<Rightarrow> Backend option \<times> Service" where
  "udpRoundRobin s =
     (case roundRobin s of ([], s') \<Rightarrow> (None, s') | (b # _, s') \<Rightarrow> (Some b, s'))"

text \<open>The heads of \<open>n\<close> successive calls of \<open>s.next()\<close>, as the weighted test reads them.\<close>

fun next_heads :: "nat \<Rightarrow> Service \<Rightarrow> string option list" where
  "next_heads 0 s = []"
| "next_heads (Suc n) s =
     (case next_backends s of
        (backends, s') \<Rightarrow>
          (case backends of [] \<Rightarrow> None | b # _ \<Rightarrow> Some (b_Name b)) # next_heads n s')"

section \<open>The HTTP path\<close>

record Request =
  rq_TLS :: bool
  rq_Host :: string
  rq_RequestURI :: string
  rq_Header :: "string \<rightharpoonup> string list"

text \<open>\<open>Header.Get\<close>: the first value stored under the canonical key, or the empty string.\<close>

definition Header_Get :: "(string \<rightharpoonup> string list) \<Rightarrow> string \<Rightarrow> string" where
  "Header_Get h key = (case h key of None \<Rightarrow> '''' | Some [] \<Rightarrow> '''' | Some (v # _) \<Rightarrow> v)"

record ErrorPage =
  ep_Header :: "string \<rightharpoonup> string list"
  ep_Body :: string

datatype Response =
    Redirect string int
  | Unavailable int "ErrorPage option"
  | Proxied "string list"

definition StatusMovedPermanently :: int where "StatusMovedPermanently = 301"
definition StatusServiceUnavailable :: int where "StatusServiceUnavailable = 503"

text \<open>
  \<open>Service.ServeHTTP\<close>.  What is written to the \<open>ResponseWriter\<close> is the returned
  \<open>Response\<close>; the cached error pages (\<open>s.errorPages.Get\<close>) are a parameter, and the
  reverse proxy is represented by the address list it is handed.  The deferred
  decrement of \<open>HTTPActive\<close> runs on every return.
\<close>

definition ServeHTTP ::
  "(int \<Rightarrow> ErrorPage option) \<Rightarrow> Service \<Rightarrow> Request \<Rightarrow> Response \<times> Service" where
  "ServeHTTP errorPages_Get s r =
     (let s1 = s\<lparr>s_HTTPConns := wrap64 (s_HTTPConns s + 1),
                 s_HTTPActive := wrap64 (s_HTTPActive s + 1)\<rparr>;
          done = (\<lambda>s'. s'\<lparr>s_HTTPActive := wrap64 (s_HTTPActive s' - 1)\<rparr>)
      in if s_HTTPSRedirect s1
            \<and> (rq_TLS r \<or> Header_Get (rq_Header r) ''X-Forwarded-Proto'' \<noteq> ''https'')
         then (Redirect (''https://'' @ rq_Host r @ rq_RequestURI r) StatusMovedPermanently,
               done s1)
         else if s_MaintenanceMode s1
         then (Unavailable StatusServiceUnavailable (errorPages_Get StatusServiceUnavailable),
               done s1)
         else (case NextAddrs s1 of (addrs, s2) \<Rightarrow> (Proxied addrs, done s2)))"

section \<open>Virtual hosts\<close>

text \<open>
  A \<open>VirtualHost\<close> holds pointers to services.  A service is known by its name, unique
  in the registry, so a pointer is that name and the registry's table is the store it
  is read through.
\<close>

record VirtualHost =
  v_Name :: string
  v_services :: "string list"
  v_last :: int

definition VirtualHost_Len :: "VirtualHost \<Rightarrow> int" where
  "VirtualHost_Len v = int (length (v_services v))"

definition VirtualHost_Add :: "VirtualHost \<Rightarrow> string \<Rightarrow> VirtualHost" where
  "VirtualHost_Add v svc =
     (if svc \<in> set (v_services v) then v else v\<lparr>v_services := v_services v @ [svc]\<rparr>)"

fun remove_first :: "string \<Rightarrow> string list \<Rightarrow> string list" where
  "remove_first name [] = []"
| "remove_first name (s # ss) = (if s = name then ss else s # remove_first name ss)"

definition VirtualHost_Remove :: "VirtualHost \<Rightarrow> string \<Rightarrow> VirtualHost" where
  "VirtualHost_Remove v svc = v\<lparr>v_services := remove_first svc (v_services v)\<rparr>"

text \<open>
  \<open>VirtualHost.Service\<close>.  The result is \<open>None\<close> for a panic: the index expression
  \<open>v.services[v.last]\<close> out of range, or (in the model only) a name that the store does
  not hold.  \<open>Some (None, v)\<close> is the \<open>nil\<close> return.
\<close>

definition available_at :: "(string \<times> Service) list \<Rightarrow> string list \<Rightarrow> nat \<Rightarrow> int option" where
  "available_at svcs services idx = map_option Available (map_of svcs (services ! idx))"

fun cycle :: "(string \<times> Service) list \<Rightarrow> VirtualHost \<Rightarrow> nat list \<Rightarrow> (nat option) option" where
  "cycle svcs v [] = Some None"
| "cycle svcs v (i # is) =
     (let idx = nat ((v_last v + int i) mod int (length (v_services v)))
      in case available_at svcs (v_services v) idx of
           None \<Rightarrow> None
         | Some a \<Rightarrow> if a > 0 then Some (Some idx) else cycle svcs v is)"

definition VirtualHost_Service ::
  "(string \<times> Service) list \<Rightarrow> VirtualHost \<Rightarrow> (string option \<times> VirtualHost) option" where
  "VirtualHost_Service svcs v =
     (if length (v_services v) = 0 then Some (None, v)
      else (case cycle svcs v [1 ..< Suc (length (v_services v))] of
              None \<Rightarrow> None
            | Some (Some idx) \<Rightarrow> Some (Some (v_services v ! idx), v\<lparr>v_last := int idx\<rparr>)
            | Some None \<Rightarrow>
                if 0 \<le> v_last v \<and> v_last v < int (length (v_services v))
                then Some (Some (v_services v ! nat (v_last v)), v)
                else None))"

section \<open>The service registry\<close>

record Config =
  g_Balance :: string
  g_CheckInterval :: int
  g_Fall :: int
  g_Rise :: int
  g_ClientTimeout :: int
  g_ServerTimeout :: int
  g_DialTimeout :: int
  g_HTTPSRedirect :: bool
  g_Services :: "ServiceConfig list"

text \<open>
  The two Go maps of the registry are association lists with distinct keys, read with
  \<^const>\<open>map_of\<close> and written with \<^const>\<open>AList.update\<close> and \<^const>\<open>AList.delete\<close>.
\<close>

record Registry =
  r_svcs :: "(string \<times> Service) list"
  r_vhosts :: "(string \<times> VirtualHost) list"
  r_cfg :: Config

text \<open>
  What the registry code takes from outside this package: the package variables
  \<open>adminListenAddr\<close> and \<open>httpsRedirect\<close> (set from the command line), whether the
  operating system lets a listener be opened on a network and address (\<open>None\<close>, or the
  error), the test \<open>len(strings.TrimSpace(s)) == 0\<close> of the standard library, and the
  order in which a \<open>range\<close> over a Go map visits keys (the language leaves it open;
  \<open>range_order\<close> is given the keys and answers with the order of the visit).
\<close>

record Env =
  adminListenAddr :: string
  httpsRedirect :: bool
  listen_error :: "string \<Rightarrow> string \<Rightarrow> string option"
  blank :: "string \<Rightarrow> bool"
  range_order :: "string list \<Rightarrow> string list"

definition Config_zero :: Config where
  "Config_zero =
     \<lparr>g_Balance = '''', g_CheckInterval = 0, g_Fall = 0, g_Rise = 0,
      g_ClientTimeout = 0, g_ServerTimeout = 0, g_DialTimeout = 0,
      g_HTTPSRedirect = False, g_Services = []\<rparr>"

text \<open>The package variable \<open>Registry\<close> as initialised.\<close>

definition Registry_init :: Registry where
  "Registry_init = \<lparr>r_svcs = [], r_vhosts = [], r_cfg = Config_zero\<rparr>"

subsection \<open>utils: filterEmpty\<close>

text \<open>
  \<open>filterEmpty\<close> compacts the slice in place and returns a shorter view of the same
  array.  \<open>filterEmpty_state\<close> is the loop: the array and \<open>removed\<close> after the last
  index; \<open>filterEmpty_arr\<close> is what a second slice of full length over that array reads
  afterwards.
\<close>

definition filterEmpty_step ::
  "(string \<Rightarrow> bool) \<Rightarrow> nat \<Rightarrow> string list \<times> nat \<Rightarrow> string list \<times> nat" where
  "filterEmpty_step bl i st =
     (case st of
        (a, removed) \<Rightarrow>
          (let a' = (if removed > 0 then a[i - removed := a ! i] else a)
           in (a', if bl (a' ! i) then removed + 1 else removed)))"

definition filterEmpty_state :: "(string \<Rightarrow> bool) \<Rightarrow> string list \<Rightarrow> string list \<times> nat" where
  "filterEmpty_state bl a = fold (filterEmpty_step bl) [0 ..< length a] (a, 0)"

definition filterEmpty_arr :: "(string \<Rightarrow> bool) \<Rightarrow> string list \<Rightarrow> string list" where
  "filterEmpty_arr bl a = fst (filterEmpty_state bl a)"

definition filterEmpty :: "(string \<Rightarrow> bool) \<Rightarrow> string list \<Rightarrow> string list" where
  "filterEmpty bl a =
     (case filterEmpty_state bl a of (a', removed) \<Rightarrow> take (length a - removed) a')"

subsection \<open>Adding a service\<close>

definition setServiceDefaults :: "Registry \<Rightarrow> ServiceConfig \<Rightarrow> ServiceConfig" where
  "setServiceDefaults r svc =
     (let c = r_cfg r
      in svc\<lparr>sc_Balance :=
               (if sc_Balance svc = '''' \<and> g_Balance c \<noteq> '''' then g_Balance c
                else sc_Balance svc),
             sc_CheckInterval :=
               (if sc_CheckInterval svc = 0 \<and> g_CheckInterval c \<noteq> 0 then g_CheckInterval c
                else sc_CheckInterval svc),
             sc_Fall := (if sc_Fall svc = 0 \<and> g_Fall c \<noteq> 0 then g_Fall c else sc_Fall svc),
             sc_Rise := (if sc_Rise svc = 0 \<and> g_Rise c \<noteq> 0 then g_Rise c else sc_Rise svc),
             sc_ClientTimeout :=
               (if sc_ClientTimeout svc = 0 \<and> g_ClientTimeout c \<noteq> 0 then g_ClientTimeout c
                else sc_ClientTimeout svc),
             sc_ServerTimeout :=
               (if sc_ServerTimeout svc = 0 \<and> g_ServerTimeout c \<noteq> 0 then g_ServerTimeout c
                else sc_ServerTimeout svc),
             sc_DialTimeout :=
               (if sc_DialTimeout svc = 0 \<and> g_DialTimeout c \<noteq> 0 then g_DialTimeout c
                else sc_DialTimeout svc),
             sc_HTTPSRedirect := (if g_HTTPSRedirect c then True else sc_HTTPSRedirect svc)\<rparr>)"

text \<open>\<open>Service.start\<close>: the listener is opened, or the error is returned.\<close>

definition start :: "Env \<Rightarrow> Service \<Rightarrow> error + Service" where
  "start env s =
     (if s_Network s \<in> {''tcp'', ''tcp4'', ''tcp6''} then
        (case listen_error env (s_Network s) (s_Addr s) of
           Some e \<Rightarrow> Inl (ErrListen e)
         | None \<Rightarrow> Inr (s\<lparr>s_listening := True\<rparr>))
      else if s_Network s \<in> {''udp'', ''udp4'', ''udp6''} then
        (case listen_error env (s_Network s) (s_Addr s) of
           Some e \<Rightarrow> Inl (ErrListen e)
         | None \<Rightarrow> Inr (s\<lparr>s_listening := True\<rparr>))
      else Inl (ErrUnknownNetwork (s_Network s)))"

text \<open>Create or reuse the \<open>VirtualHost\<close> of a name and add the service to it.\<close>

definition vhost_add ::
  "string \<Rightarrow> string \<Rightarrow> (string \<times> VirtualHost) list \<Rightarrow> (string \<times> VirtualHost) list" where
  "vhost_add svc name vhosts =
     (case map_of vhosts name of
        None \<Rightarrow>
          AList.update name
            (VirtualHost_Add \<lparr>v_Name = name, v_services = [], v_last = 0\<rparr> svc) vhosts
      | Some vhost \<Rightarrow> AList.update name (VirtualHost_Add vhost svc) vhosts)"

text \<open>
  \<open>ServiceRegistry.AddService\<close>.  The result is \<open>None\<close> for a panic, else the returned
  error and the registry.  \<open>NewService\<close> keeps the slice \<open>svcCfg.VirtualHosts\<close>, which
  \<open>filterEmpty\<close> then compacts in place: the service reads the compacted array at the
  old length.
\<close>

definition AddService ::
  "Env \<Rightarrow> Registry \<Rightarrow> ServiceConfig \<Rightarrow> (error option \<times> Registry) option" where
  "AddService env r svcCfg0 =
     (if map_of (r_svcs r) (sc_Name svcCfg0) \<noteq> None then Some (Some ErrDuplicateService, r)
      else
        (let svcCfg = ServiceConfig_SetDefaults (setServiceDefaults r svcCfg0)
         in case NewService svcCfg of
              None \<Rightarrow> None
            | Some service0 \<Rightarrow>
                (case start env service0 of
                   Inl err \<Rightarrow> Some (Some err, r)
                 | Inr service1 \<Rightarrow>
                     (let hosts = map_option (filterEmpty (blank env)) (sc_VirtualHosts svcCfg);
                          service = service1\<lparr>s_VirtualHosts :=
                            map_option (filterEmpty_arr (blank env)) (sc_VirtualHosts svcCfg)\<rparr>
                      in Some (None,
                           r\<lparr>r_svcs := AList.update (s_Name service) service (r_svcs r),
                             r_vhosts :=
                               fold (vhost_add (s_Name service)) (slice hosts) (r_vhosts r)\<rparr>)))))"

subsection \<open>Updating a service\<close>

text \<open>
  The backend diff of \<open>UpdateService\<close>.  \<open>currentBackends\<close> is the map built from the
  current configuration; the backends left in it at the end are removed by a \<open>range\<close>
  over that map.
\<close>

fun update_backends ::
  "Service \<Rightarrow> (string \<times> BackendConfig) list \<Rightarrow> BackendConfig list
     \<Rightarrow> (Service \<times> (string \<times> BackendConfig) list) option" where
  "update_backends service currentBackends [] = Some (service, currentBackends)"
| "update_backends service currentBackends (newBackend # rest) =
     (case map_of currentBackends (bc_Name newBackend) of
        Some current \<Rightarrow>
          if BackendConfig_Equal current newBackend
          then update_backends service (AList.delete (bc_Name current) currentBackends) rest
          else (case add (snd (remove service (bc_Name newBackend))) (NewBackend newBackend) of
                  None \<Rightarrow> None
                | Some service' \<Rightarrow>
                    update_backends service'
                      (AList.delete (bc_Name newBackend) currentBackends) rest)
      | None \<Rightarrow>
          (case add (snd (remove service (bc_Name newBackend))) (NewBackend newBackend) of
             None \<Rightarrow> None
           | Some service' \<Rightarrow>
               update_backends service'
                 (AList.delete (bc_Name newBackend) currentBackends) rest))"

text \<open>
  The keys of a Go map in the order a \<open>range\<close> visits them: the order the environment
  gives, which is a permutation of the keys (an answer that is not one is not a visit,
  and the order of the list stands in for it).
\<close>

definition range_keys :: "Env \<Rightarrow> (string \<times> 'v) list \<Rightarrow> string list" where
  "range_keys env m =
     (let ks = map fst m; visit = range_order env ks
      in if distinct visit \<and> set visit = set ks then visit else ks)"

definition remove_leftover ::
  "Env \<Rightarrow> Service \<Rightarrow> (string \<times> BackendConfig) list \<Rightarrow> Service" where
  "remove_leftover env service currentBackends =
     fold (\<lambda>name s. snd (remove s name)) (range_keys env currentBackends) service"

text \<open>The linear merge of \<open>updateVHosts\<close> over the two sorted slices: (remove, add).\<close>

fun diff_hosts :: "string list \<Rightarrow> string list \<Rightarrow> string list \<times> string list" where
  "diff_hosts [] newHosts = ([], newHosts)"
| "diff_hosts (old # olds) [] = (old # olds, [])"
| "diff_hosts (old # olds) (new # news) =
     (if old \<noteq> new then
        (if old < new
         then (case diff_hosts olds (new # news) of (rm, ad) \<Rightarrow> (old # rm, ad))
         else (case diff_hosts (old # olds) news of (rm, ad) \<Rightarrow> (rm, new # ad)))
      else diff_hosts olds news)"

text \<open>
  One round of the removal loop.  \<open>vhost.Len()\<close> is called on a nil pointer when the
  table has no entry for the name: a panic (\<open>None\<close>).
\<close>

definition vhost_remove ::
  "string \<Rightarrow> string \<Rightarrow> (string \<times> VirtualHost) list \<Rightarrow> (string \<times> VirtualHost) list option" where
  "vhost_remove svc name vhosts =
     (case map_of vhosts name of
        None \<Rightarrow> None
      | Some vhost \<Rightarrow>
          (let vhost' = VirtualHost_Remove vhost svc
           in if VirtualHost_Len vhost' = 0 then Some (AList.delete name vhosts)
              else Some (AList.update name vhost' vhosts)))"

fun vhost_remove_all ::
  "string \<Rightarrow> string list \<Rightarrow> (string \<times> VirtualHost) list \<Rightarrow> (string \<times> VirtualHost) list option" where
  "vhost_remove_all svc [] vhosts = Some vhosts"
| "vhost_remove_all svc (name # names) vhosts =
     (case vhost_remove svc name vhosts of
        None \<Rightarrow> None
      | Some vhosts' \<Rightarrow> vhost_remove_all svc names vhosts')"

text \<open>
  \<open>updateVHosts\<close>.  Both slices are sorted in place.  \<open>shared\<close> says that \<open>newHosts\<close> is a
  view of the service's own array (the update named no virtual hosts, so \<open>Merge\<close> kept
  the current slice): sorting \<open>oldHosts\<close> then sorts what \<open>newHosts\<close> reads.
\<close>

definition updateVHosts ::
  "bool \<Rightarrow> (string \<times> VirtualHost) list \<Rightarrow> Service \<Rightarrow> string list option
     \<Rightarrow> ((string \<times> VirtualHost) list \<times> Service) option" where
  "updateVHosts shared vhosts service newHosts0 =
     (let oldHosts = sort (slice (s_VirtualHosts service));
          newHosts =
            (if shared then map_option (\<lambda>hs. take (length hs) oldHosts) newHosts0
             else map_option sort newHosts0)
      in case diff_hosts oldHosts (slice newHosts) of
           (rm, ad) \<Rightarrow>
             (case vhost_remove_all (s_Name service) rm vhosts of
                None \<Rightarrow> None
              | Some vhosts1 \<Rightarrow>
                  Some (fold (vhost_add (s_Name service)) ad vhosts1,
                        service\<lparr>s_VirtualHosts := newHosts\<rparr>)))"

text \<open>
  \<open>ServiceRegistry.UpdateService\<close>.  \<open>currentCfg.VirtualHosts\<close> is the service's own
  slice, so the sort inside \<open>Equal\<close> sorts the service's hosts, and those of \<open>newCfg\<close>
  too when \<open>Merge\<close> kept them; \<open>filterEmpty\<close> then compacts that same array.
\<close>

definition UpdateService ::
  "Env \<Rightarrow> Registry \<Rightarrow> ServiceConfig \<Rightarrow> (error option \<times> Registry) option" where
  "UpdateService env r newCfg0 =
     (case map_of (r_svcs r) (sc_Name newCfg0) of
        None \<Rightarrow> Some (Some ErrNoService, r)
      | Some service \<Rightarrow>
          (let currentCfg = config service;
               newCfg = Merge currentCfg newCfg0
           in case Service_UpdateConfig service newCfg of
                Inl err \<Rightarrow> Some (Some err, r)
              | Inr service1 \<Rightarrow>
                  (case update_backends service1
                          (fold (\<lambda>b. AList.update (bc_Name b) b) (slice (sc_Backends currentCfg)) [])
                          (slice (sc_Backends newCfg)) of
                     None \<Rightarrow> None
                   | Some (service2, leftover) \<Rightarrow>
                       (let service3 = remove_leftover env service2 leftover;
                            shared = (sc_VirtualHosts newCfg0 = None);
                            sorted = map_option sort (s_VirtualHosts service3);
                            service4 = service3\<lparr>s_VirtualHosts := sorted\<rparr>;
                            newCfg1 = (if shared then newCfg\<lparr>sc_VirtualHosts := sorted\<rparr>
                                       else newCfg)
                        in if ServiceConfig_Equal currentCfg newCfg1
                           then Some (None,
                                  r\<lparr>r_svcs := AList.update (sc_Name newCfg0) service4 (r_svcs r)\<rparr>)
                           else
                             (let service5 =
                                    (if s_errPagesCfg service4 \<noteq> sc_ErrorPages newCfg1
                                     then service4\<lparr>s_errPagesCfg := sc_ErrorPages newCfg1\<rparr>
                                     else service4);
                                  newHosts =
                                    map_option (filterEmpty (blank env)) (sc_VirtualHosts newCfg1);
                                  service6 =
                                    (if shared
                                     then service5\<lparr>s_VirtualHosts :=
                                            map_option (filterEmpty_arr (blank env)) sorted\<rparr>
                                     else service5)
                              in case updateVHosts shared (r_vhosts r) service6 newHosts of
                                   None \<Rightarrow> None
                                 | Some (vhosts', service7) \<Rightarrow>
                                     Some (None,
                                       r\<lparr>r_svcs :=
                                           AList.update (sc_Name newCfg0) service7 (r_svcs r),
                                         r_vhosts := vhosts'\<rparr>))))))"

subsection \<open>Removing a service, backends, lookups\<close>

text \<open>
  \<open>ServiceRegistry.RemoveService\<close>.  Each round of the loop over the virtual hosts
  touches its own entry only, so the order of the rounds does not show.
\<close>

definition RemoveService :: "Registry \<Rightarrow> string \<Rightarrow> error option \<times> Registry" where
  "RemoveService r name =
     (case map_of (r_svcs r) name of
        None \<Rightarrow> (Some ErrNoService, r)
      | Some svc \<Rightarrow>
          (let svcs' = AList.delete name (r_svcs r)
           in (None,
               r\<lparr>r_svcs := svcs',
                 r_vhosts :=
                   List.map_filter
                     (\<lambda>(host, vhost).
                        if list_ex (\<lambda>(n, service). host \<in> set (slice (s_VirtualHosts service))) svcs'
                        then Some (host, VirtualHost_Remove vhost (s_Name svc))
                        else None)
                     (r_vhosts r)\<rparr>)))"

definition AddBackend ::
  "Registry \<Rightarrow> string \<Rightarrow> BackendConfig \<Rightarrow> (error option \<times> Registry) option" where
  "AddBackend r svcName backendCfg =
     (case map_of (r_svcs r) svcName of
        None \<Rightarrow> Some (Some ErrNoService, r)
      | Some service \<Rightarrow>
          (case add service (NewBackend backendCfg) of
             None \<Rightarrow> None
           | Some service' \<Rightarrow>
               Some (None, r\<lparr>r_svcs := AList.update svcName service' (r_svcs r)\<rparr>)))"

definition RemoveBackend :: "Registry \<Rightarrow> string \<Rightarrow> string \<Rightarrow> error option \<times> Registry" where
  "RemoveBackend r svcName backendName =
     (case map_of (r_svcs r) svcName of
        None \<Rightarrow> (Some ErrNoService, r)
      | Some service \<Rightarrow>
          (case remove service backendName of
             (False, _) \<Rightarrow> (Some ErrNoBackend, r)
           | (True, service') \<Rightarrow>
               (None, r\<lparr>r_svcs := AList.update svcName service' (r_svcs r)\<rparr>)))"

definition GetService :: "Registry \<Rightarrow> string \<Rightarrow> Service option" where
  "GetService r name = map_of (r_svcs r) name"

text \<open>\<open>GetVHostService\<close>: the name of the service chosen (\<open>nil\<close> is \<open>None\<close>), or a panic.\<close>

definition GetVHostService :: "Registry \<Rightarrow> string \<Rightarrow> (string option \<times> Registry) option" where
  "GetVHostService r name =
     (case map_of (r_vhosts r) name of
        None \<Rightarrow> Some (None, r)
      | Some vhost \<Rightarrow>
          (case VirtualHost_Service (r_svcs r) vhost of
             None \<Rightarrow> None
           | Some (svc, vhost') \<Rightarrow>
               Some (svc, r\<lparr>r_vhosts := AList.update name vhost' (r_vhosts r)\<rparr>)))"

subsection \<open>Applying a whole configuration\<close>

fun Index :: "string \<Rightarrow> char \<Rightarrow> int" where
  "Index [] c = -1"
| "Index (x # xs) c = (if x = c then 0 else (let i = Index xs c in if i < 0 then -1 else i + 1))"

definition HasSuffix :: "string \<Rightarrow> string \<Rightarrow> bool" where
  "HasSuffix s suffix =
     (length s \<ge> length suffix \<and> drop (length s - length suffix) s = suffix)"

definition invalidPorts :: "Env \<Rightarrow> string list" where
  "invalidPorts env =
     [drop (nat (Index (adminListenAddr env) CHR '':'' + 1)) (adminListenAddr env)]"

text \<open>
  The loop of \<open>UpdateConfig\<close> over the services.  The \<open>continue\<close> after a port conflict
  is inside the loop over \<open>invalidPorts\<close>: it goes on to the next port, and the service
  is then added or updated like any other.
\<close>

fun UpdateConfig_services ::
  "Env \<Rightarrow> Registry \<Rightarrow> error list \<Rightarrow> ServiceConfig list \<Rightarrow> (error list \<times> Registry) option" where
  "UpdateConfig_services env r errors [] = Some (errors, r)"
| "UpdateConfig_services env r errors (svc # rest) =
     (let errors1 =
            errors @ map (ErrPortConflict (sc_Name svc))
                       (filter (HasSuffix (sc_Addr svc)) (invalidPorts env))
      in if GetService r (sc_Name svc) = None then
           (case AddService env r svc of
              None \<Rightarrow> None
            | Some (Some err, r') \<Rightarrow> UpdateConfig_services env r' (errors1 @ [err]) rest
            | Some (None, r') \<Rightarrow> UpdateConfig_services env r' errors1 rest)
         else
           (case UpdateService env r svc of
              None \<Rightarrow> None
            | Some (Some err, r') \<Rightarrow> UpdateConfig_services env r' (errors1 @ [err]) rest
            | Some (None, r') \<Rightarrow> UpdateConfig_services env r' errors1 rest))"

definition set_globals :: "Env \<Rightarrow> Config \<Rightarrow> Config \<Rightarrow> Config" where
  "set_globals env c cfg =
     c\<lparr>g_Balance := (if g_Balance cfg \<noteq> '''' then g_Balance cfg else g_Balance c),
       g_CheckInterval :=
         (if g_CheckInterval cfg \<noteq> 0 then g_CheckInterval cfg else g_CheckInterval c),
       g_Fall := (if g_Fall cfg \<noteq> 0 then g_Fall cfg else g_Fall c),
       g_Rise := (if g_Rise cfg \<noteq> 0 then g_Rise cfg else g_Rise c),
       g_ClientTimeout :=
         (if g_ClientTimeout cfg \<noteq> 0 then g_ClientTimeout cfg else g_ClientTimeout c),
       g_ServerTimeout :=
         (if g_ServerTimeout cfg \<noteq> 0 then g_ServerTimeout cfg else g_ServerTimeout c),
       g_DialTimeout :=
         (if g_DialTimeout cfg \<noteq> 0 then g_DialTimeout cfg else g_DialTimeout c),
       g_HTTPSRedirect := (if httpsRedirect env then True else g_HTTPSRedirect c)\<rparr>"

text \<open>
  \<open>ServiceRegistry.UpdateConfig\<close>: \<open>nil\<close> when no error was collected, else the
  \<open>multiError\<close>; \<open>None\<close> when a service panicked.
\<close>

definition UpdateConfig ::
  "Env \<Rightarrow> Registry \<Rightarrow> Config \<Rightarrow> (error list option \<times> Registry) option" where
  "UpdateConfig env r cfg =
     (case UpdateConfig_services env (r\<lparr>r_cfg := set_globals env (r_cfg r) cfg\<rparr>) []
             (g_Services cfg) of
        None \<Rightarrow> None
      | Some (errors, r') \<Rightarrow> Some (if length errors = 0 then None else Some errors, r'))"

section \<open>The UDP forwarding plane\<close>

record UDPAddr =
  ua_IP :: "8 word list"
  ua_Port :: int

record connTrackKey =
  IPHigh :: "64 word"
  IPLow :: "64 word"
  Port :: int

definition BigEndian_Uint32 :: "8 word list \<Rightarrow> 32 word" where
  "BigEndian_Uint32 b =
     (push_bit 24 (ucast (b ! 0)) OR push_bit 16 (ucast (b ! 1))
      OR push_bit 8 (ucast (b ! 2)) OR ucast (b ! 3))"

definition BigEndian_Uint64 :: "8 word list \<Rightarrow> 64 word" where
  "BigEndian_Uint64 b =
     (push_bit 56 (ucast (b ! 0)) OR push_bit 48 (ucast (b ! 1))
      OR push_bit 40 (ucast (b ! 2)) OR push_bit 32 (ucast (b ! 3))
      OR push_bit 24 (ucast (b ! 4)) OR push_bit 16 (ucast (b ! 5))
      OR push_bit 8 (ucast (b ! 6)) OR ucast (b ! 7))"

text \<open>
  \<open>newConnTrackKey\<close>.  An address that is neither four bytes long nor at least sixteen
  makes one of the two slices or reads run out of range: a panic (\<open>None\<close>).
\<close>

definition newConnTrackKey :: "UDPAddr \<Rightarrow> connTrackKey option" where
  "newConnTrackKey addr =
     (if length (ua_IP addr) = 4
      then Some \<lparr>IPHigh = 0, IPLow = ucast (BigEndian_Uint32 (ua_IP addr)),
                 Port = ua_Port addr\<rparr>
      else if length (ua_IP addr) \<ge> 16
      then Some \<lparr>IPHigh = BigEndian_Uint64 (take 8 (ua_IP addr)),
                 IPLow = BigEndian_Uint64 (drop 8 (ua_IP addr)),
                 Port = ua_Port addr\<rparr>
      else None)"

text \<open>An upstream socket is known by the number of the \<open>DialUDP\<close> call that opened it.\<close>

record UDPProxy =
  backendAddr :: string
  connTrackTable :: "connTrackKey \<rightharpoonup> nat"

datatype read_error = ReadOk | ReadClosed | ReadFailed

text \<open>
  One datagram as the receive loop meets it: the result of \<open>ReadFromUDP\<close>, and what the
  network answers further down, should the loop get there (whether \<open>DialUDP\<close> succeeds,
  and the byte count of the upstream \<open>Write\<close>, \<open>None\<close> for an error).
\<close>

record Datagram =
  d_read :: int
  d_from :: UDPAddr
  d_err :: read_error
  d_dial_ok :: bool
  d_write :: "int option"

text \<open>
  The state of the loop: the service, every \<open>DialUDP\<close> made so far (client key and
  socket), and the number of lookups that found their key.
\<close>

record UDPState =
  u_service :: Service
  u_dialed :: "(connTrackKey \<times> nat) list"
  u_hits :: nat

datatype loop_control = Continue | Break

text \<open>
  One round of the loop of \<open>Service.runUDP\<close>.  The \<open>UDPProxy\<close>, and with it the
  connection-tracking table, is built inside the round.  The reply task started for a
  new socket only ever deletes from the table of its own round.  \<open>None\<close> is a panic.
\<close>

definition runUDP_round :: "UDPState \<Rightarrow> Datagram \<Rightarrow> (loop_control \<times> UDPState) option" where
  "runUDP_round st d =
     (if d_err d \<noteq> ReadOk \<and> d_err d \<noteq> ReadClosed then Some (Break, st)
      else if d_read d = 0 then Some (Continue, st)
      else
        (let s1 = (u_service st)\<lparr>s_Rcvd := wrap64 (s_Rcvd (u_service st) + d_read d)\<rparr>
         in case udpRoundRobin s1 of
              (None, s2) \<Rightarrow> Some (Continue, st\<lparr>u_service := s2\<rparr>)
            | (Some backend, s2) \<Rightarrow>
                (let proxy = \<lparr>backendAddr = b_Addr backend, connTrackTable = Map.empty\<rparr>
                 in case newConnTrackKey (d_from d) of
                      None \<Rightarrow> None
                    | Some fromKey \<Rightarrow>
                        (case connTrackTable proxy fromKey of
                           None \<Rightarrow>
                             if \<not> d_dial_ok d then Some (Continue, st\<lparr>u_service := s2\<rparr>)
                             else
                               (let proxyConn = length (u_dialed st);
                                    st1 = st\<lparr>u_dialed := u_dialed st @ [(fromKey, proxyConn)]\<rparr>
                                in case d_write d of
                                     None \<Rightarrow>
                                       Some (Break,
                                         st1\<lparr>u_service := s2\<lparr>s_Errors := wrap64 (s_Errors s2 + 1)\<rparr>\<rparr>)
                                   | Some n \<Rightarrow>
                                       Some (Continue,
                                         st1\<lparr>u_service := s2\<lparr>s_Sent := wrap64 (s_Sent s2 + n)\<rparr>\<rparr>))
                         | Some proxyConn \<Rightarrow>
                             (let st1 = st\<lparr>u_hits := u_hits st + 1\<rparr>
                              in case d_write d of
                                   None \<Rightarrow>
                                     Some (Break,
                                       st1\<lparr>u_service := s2\<lparr>s_Errors := wrap64 (s_Errors s2 + 1)\<rparr>\<rparr>)
                                 | Some n \<Rightarrow>
                                     Some (Continue,
                                       st1\<lparr>u_service := s2\<lparr>s_Sent := wrap64 (s_Sent s2 + n)\<rparr>\<rparr>))))))"

text \<open>The loop over the datagrams that arrive, until a \<open>break\<close>.\<close>

fun runUDP :: "UDPState \<Rightarrow> Datagram list \<Rightarrow> UDPState option" where
  "runUDP st [] = Some st"
| "runUDP st (d # ds) =
     (case runUDP_round st d of
        None \<Rightarrow> None
      | Some (Break, st') \<Rightarrow> Some st'
      | Some (Continue, st') \<Rightarrow> runUDP st' ds)"

section \<open>Notions used in the statements\<close>

text \<open>
  What is left of a \<open>ServiceConfig\<close> once the backends, the virtual hosts and the error
  pages are put aside and the defaults are applied.
\<close>

definition other_fields :: "ServiceConfig \<Rightarrow> ServiceConfig" where
  "other_fields s =
     ServiceConfig_SetDefaults
       (s\<lparr>sc_Backends := None, sc_VirtualHosts := None, sc_ErrorPages := None\<rparr>)"

text \<open>
  The millisecond values whose conversion to nanoseconds stays within an \<open>int64\<close>.
\<close>

definition ms_in_range :: "int \<Rightarrow> bool" where
  "ms_in_range ms \<longleftrightarrow> - 9223372036854 \<le> ms \<and> ms \<le> 9223372036854"

text \<open>
  A list of virtual hosts without blank names and without repetitions.
\<close>

definition clean_hosts :: "Env \<Rightarrow> string list option \<Rightarrow> bool" where
  "clean_hosts env hosts \<longleftrightarrow>
     distinct (slice hosts) \<and> list_all (\<lambda>h. \<not> blank env h) (slice hosts)"

text \<open>
  The registry states reached from the initial one by the operations of the registry,
  each returning normally, where every configuration handed to \<open>AddService\<close> and
  \<open>UpdateService\<close> has a clean list of virtual hosts.  The global defaults may change
  in between, as \<open>UpdateConfig\<close> changes them, and each \<open>UpdateService\<close> may visit its map
  in an order of its own.
\<close>

inductive reachable :: "Env \<Rightarrow> Registry \<Rightarrow> bool" for env :: Env where
  reach_init: "reachable env Registry_init"
| reach_globals: "reachable env r \<Longrightarrow> reachable env (r\<lparr>r_cfg := c\<rparr>)"
| reach_AddService:
    "reachable env r \<Longrightarrow> clean_hosts env (sc_VirtualHosts cfg)
       \<Longrightarrow> AddService env r cfg = Some (err, r') \<Longrightarrow> reachable env r'"
| reach_UpdateService:
    "reachable env r \<Longrightarrow> clean_hosts env (sc_VirtualHosts cfg)
       \<Longrightarrow> UpdateService (env\<lparr>range_order := visit\<rparr>) r cfg = Some (err, r')
       \<Longrightarrow> reachable env r'"
| reach_RemoveService:
    "reachable env r \<Longrightarrow> RemoveService r name = (err, r') \<Longrightarrow> reachable env r'"
| reach_AddBackend:
    "reachable env r \<Longrightarrow> AddBackend r name b = Some (err, r') \<Longrightarrow> reachable env r'"
| reach_RemoveBackend:
    "reachable env r \<Longrightarrow> RemoveBackend r name b = (err, r') \<Longrightarrow> reachable env r'"
| reach_GetVHostService:
    "reachable env r \<Longrightarrow> GetVHostService r host = Some (svc, r') \<Longrightarrow> reachable env r'"

text \<open>The hostnames that are keys of the table, and those that some service lists.\<close>

definition vhost_keys :: "Registry \<Rightarrow> string set" where
  "vhost_keys r = fst ` set (r_vhosts r)"

definition listed_hosts :: "Registry \<Rightarrow> string set" where
  "listed_hosts r = (\<Union>(n, s) \<in> set (r_svcs r). set (slice (s_VirtualHosts s)))"

text \<open>The names of the services that list a host.\<close>

definition listing :: "(string \<times> Service) list \<Rightarrow> string \<Rightarrow> string set" where
  "listing svcs h = {n. \<exists>s. map_of svcs n = Some s \<and> h \<in> set (slice (s_VirtualHosts s))}"

text \<open>
  The invariant behind the table: keys are distinct, a service is stored under its
  name and lists clean hosts, and a host has an entry exactly when a service lists it,
  the entry holding the names of those services, each once.
\<close>

definition vhost_ok :: "(string \<times> Service) list \<Rightarrow> VirtualHost option \<Rightarrow> string \<Rightarrow> bool" where
  "vhost_ok svcs entry h =
     (case entry of
        None \<Rightarrow> listing svcs h = {}
      | Some v \<Rightarrow>
          distinct (v_services v) \<and> set (v_services v) = listing svcs h
          \<and> v_services v \<noteq> [])"

definition vhosts_inv :: "Env \<Rightarrow> Registry \<Rightarrow> bool" where
  "vhosts_inv env r \<longleftrightarrow>
     distinct (map fst (r_svcs r)) \<and> distinct (map fst (r_vhosts r))
     \<and> (\<forall>n s. map_of (r_svcs r) n = Some s
            \<longrightarrow> s_Name s = n \<and> clean_hosts env (s_VirtualHosts s))
     \<and> (\<forall>h. vhost_ok (r_svcs r) (map_of (r_vhosts r) h) h)"

text \<open>What is left of an entry once a service is removed from it.\<close>

definition removed_entry :: "string \<Rightarrow> VirtualHost option \<Rightarrow> VirtualHost option" where
  "removed_entry n entry =
     (case entry of
        None \<Rightarrow> None
      | Some v \<Rightarrow>
          if v_services (VirtualHost_Remove v n) = [] then None
          else Some (VirtualHost_Remove v n))"

text \<open>Each service of the registry with its network and the networks of its backends.\<close>

definition network_families :: "Registry \<Rightarrow> (string \<times> string \<times> string list) list" where
  "network_families r =
     map (\<lambda>(name, s). (name, s_Network s, map b_Network (s_Backends s))) (r_svcs r)"

text \<open>Each virtual host of the registry with its services and its last-served index.\<close>

definition vhost_table :: "Registry \<Rightarrow> (string \<times> string list \<times> int) list" where
  "vhost_table r = map (\<lambda>(h, v). (h, v_services v, v_last v)) (r_vhosts r)"

text \<open>Each service of the registry with its address and its \<open>Fall\<close>.\<close>

definition service_table :: "Registry \<Rightarrow> (string \<times> string \<times> int) list" where
  "service_table r = map (\<lambda>(name, s). (name, s_Addr s, s_Fall s)) (r_svcs r)"

text \<open>Each service of the registry with the virtual hosts it lists.\<close>

definition hosts_listed :: "Registry \<Rightarrow> (string \<times> string list option) list" where
  "hosts_listed r = map (\<lambda>(name, s). (name, s_VirtualHosts s)) (r_svcs r)"

section \<open>Concrete configurations\<close>

text \<open>
  The test \<open>len(strings.TrimSpace(s)) == 0\<close> on the bytes of a string: true when the
  string is made of white space only, that is of the UTF-8 encodings of the characters
  of \<open>unicode.IsSpace\<close> (tab to carriage return, space, U+0085, U+00A0, U+1680, U+2000 to
  U+200A, U+2028, U+2029, U+202F, U+205F, U+3000).  A byte that starts none of them,
  malformed UTF-8 included, is not white space.
\<close>

definition space_runes :: "string list" where
  "space_runes =
     [[CHR 0x09], [CHR 0x0A], [CHR 0x0B], [CHR 0x0C], [CHR 0x0D], [CHR 0x20],
      [CHR 0xC2, CHR 0x85], [CHR 0xC2, CHR 0xA0], [CHR 0xE1, CHR 0x9A, CHR 0x80],
      [CHR 0xE2, CHR 0x80, CHR 0x80], [CHR 0xE2, CHR 0x80, CHR 0x81],
      [CHR 0xE2, CHR 0x80, CHR 0x82], [CHR 0xE2, CHR 0x80, CHR 0x83],
      [CHR 0xE2, CHR 0x80, CHR 0x84], [CHR 0xE2, CHR 0x80, CHR 0x85],
      [CHR 0xE2, CHR 0x80, CHR 0x86], [CHR 0xE2, CHR 0x80, CHR 0x87],
      [CHR 0xE2, CHR 0x80, CHR 0x88], [CHR 0xE2, CHR 0x80, CHR 0x89],
      [CHR 0xE2, CHR 0x80, CHR 0x8A], [CHR 0xE2, CHR 0x80, CHR 0xA8],
      [CHR 0xE2, CHR 0x80, CHR 0xA9], [CHR 0xE2, CHR 0x80, CHR 0xAF],
      [CHR 0xE2, CHR 0x81, CHR 0x9F], [CHR 0xE3, CHR 0x80, CHR 0x80]]"

text \<open>The number of bytes of the white space character a string starts with, or 0.\<close>

definition space_width :: "string \<Rightarrow> nat" where
  "space_width s =
     (case find (\<lambda>p. take (length p) s = p) space_runes of
        None \<Rightarrow> 0
      | Some p \<Rightarrow> length p)"

fun blank_utf8 :: "string \<Rightarrow> bool" where
  "blank_utf8 [] = True"
| "blank_utf8 (c # cs) =
     (let w = space_width (c # cs)
      in if w = 0 then False else blank_utf8 (drop (w - 1) cs))"

text \<open>
  An environment: every listener can be opened, and a \<open>range\<close> visits the keys of a map
  in the order of the list that stands for it.
\<close>

definition env0 :: Env where
  "env0 = \<lparr>adminListenAddr = ''127.0.0.1:9090'', httpsRedirect = False,
           listen_error = (\<lambda>network addr. None), blank = blank_utf8,
           range_order = (\<lambda>ks. ks)\<rparr>"

definition backend_cfg :: "string \<Rightarrow> string \<Rightarrow> string \<Rightarrow> int \<Rightarrow> BackendConfig" where
  "backend_cfg name addr network weight =
     \<lparr>bc_Name = name, bc_Addr = addr, bc_Network = network, bc_CheckAddr = '''',
      bc_Weight = weight\<rparr>"

definition web_cfg :: ServiceConfig where
  "web_cfg =
     ServiceConfig_zero\<lparr>sc_Name := ''web'', sc_Addr := ''127.0.0.1:8080'',
       sc_HTTPSRedirect := True, sc_MaintenanceMode := True, sc_Fall := 3,
       sc_VirtualHosts := Some [''a.example'']\<rparr>"

definition web_service :: Service where
  "web_service = the (NewService web_cfg)"

definition tls_request :: Request where
  "tls_request =
     \<lparr>rq_TLS = True, rq_Host = ''a.example'', rq_RequestURI = ''/index.html'',
      rq_Header = [''X-Forwarded-Proto'' \<mapsto> [''https'']]\<rparr>"

definition weighted_cfg :: ServiceConfig where
  "weighted_cfg =
     ServiceConfig_zero\<lparr>sc_Name := ''testService'', sc_Addr := ''127.0.0.1:2000'',
       sc_ClientTimeout := 1000, sc_ServerTimeout := 1000,
       sc_Backends := Some [backend_cfg ''backend_0'' ''127.0.0.1:3000'' '''' 1,
                            backend_cfg ''backend_1'' ''127.0.0.1:3001'' '''' 2,
                            backend_cfg ''backend_2'' ''127.0.0.1:3002'' '''' 3]\<rparr>"

definition weighted_service :: Service where
  "weighted_service = the (NewService weighted_cfg)"

definition plain_cfg :: ServiceConfig where
  "plain_cfg = ServiceConfig_zero\<lparr>sc_Name := ''web'', sc_Addr := ''127.0.0.1:8080''\<rparr>"

definition svc_a_cfg :: ServiceConfig where
  "svc_a_cfg =
     ServiceConfig_zero\<lparr>sc_Name := ''a'', sc_Addr := ''127.0.0.1:8001'',
       sc_VirtualHosts := Some [''h.example'']\<rparr>"

definition svc_b_cfg :: ServiceConfig where
  "svc_b_cfg =
     ServiceConfig_zero\<lparr>sc_Name := ''b'', sc_Addr := ''127.0.0.1:8002'',
       sc_VirtualHosts := Some [''h.example''],
       sc_Backends := Some [backend_cfg ''b0'' ''10.0.0.7:80'' '''' 0]\<rparr>"

text \<open>Two services answer for one host; the second is served, then removed.\<close>

definition reg_ab :: "Registry option" where
  "reg_ab =
     Option.bind (AddService env0 Registry_init svc_a_cfg)
       (\<lambda>(err, r). map_option snd (AddService env0 r svc_b_cfg))"

definition reg_a_stale :: "Registry option" where
  "reg_a_stale =
     Option.bind reg_ab
       (\<lambda>r. Option.bind (GetVHostService r ''h.example'')
              (\<lambda>(svc, r'). Some (snd (RemoveService r' ''b''))))"

definition udp_cfg :: ServiceConfig where
  "udp_cfg =
     ServiceConfig_zero\<lparr>sc_Name := ''dns'', sc_Addr := ''127.0.0.1:11110'',
       sc_Network := ''udp'',
       sc_Backends := Some [backend_cfg ''UDPServer'' ''127.0.0.1:11111'' ''udp'' 0]\<rparr>"

definition client_addr :: UDPAddr where
  "client_addr = \<lparr>ua_IP = [10, 0, 0, 1], ua_Port = 5000\<rparr>"

definition datagram_from :: "UDPAddr \<Rightarrow> Datagram" where
  "datagram_from a =
     \<lparr>d_read = 4, d_from = a, d_err = ReadOk, d_dial_ok = True, d_write = Some 4\<rparr>"

definition plain_registry :: Registry where
  "plain_registry = snd (the (AddService env0 Registry_init plain_cfg))"

definition anon_cfg :: ServiceConfig where
  "anon_cfg = ServiceConfig_zero\<lparr>sc_Name := ''anon''\<rparr>"

definition anon_registry :: Registry where
  "anon_registry = snd (the (AddService env0 Registry_init anon_cfg))"

definition clash_config :: Config where
  "clash_config =
     Config_zero\<lparr>g_Services :=
       [ServiceConfig_zero\<lparr>sc_Name := ''clash'', sc_Addr := ''10.0.0.1:9090''\<rparr>,
        ServiceConfig_zero\<lparr>sc_Name := ''ok'', sc_Addr := ''10.0.0.1:8081''\<rparr>]\<rparr>"

definition clash_update :: Config where
  "clash_update =
     Config_zero\<lparr>g_Services :=
       [ServiceConfig_zero\<lparr>sc_Name := ''clash'', sc_Addr := ''10.0.0.1:9090'',
          sc_Fall := 7\<rparr>]\<rparr>"

definition blank_cfg :: ServiceConfig where
  "blank_cfg =
     ServiceConfig_zero\<lparr>sc_Name := ''web'', sc_Addr := ''127.0.0.1:8080'',
       sc_VirtualHosts := Some [''a.example'', '''']\<rparr>"

definition blank_registry :: Registry where
  "blank_registry = snd (the (AddService env0 Registry_init blank_cfg))"

definition reg_a :: Registry where
  "reg_a = snd (the (AddService env0 Registry_init svc_a_cfg))"

definition reg_a_b :: Registry where
  "reg_a_b = snd (the (AddService env0 reg_a svc_b_cfg))"

definition reg_a_moved :: Registry where
  "reg_a_moved =
     snd (the (UpdateService env0 reg_a_b
                 (svc_a_cfg\<lparr>sc_VirtualHosts := Some [''g.example'']\<rparr>)))"

definition reg_moved_only :: Registry where
  "reg_moved_only = snd (RemoveService reg_a_moved ''b'')"

definition reg_b_again :: Registry where
  "reg_b_again = snd (the (AddService env0 reg_moved_only svc_b_cfg))"

definition repeated_cfg :: ServiceConfig where
  "repeated_cfg =
     ServiceConfig_zero\<lparr>sc_Name := ''web'', sc_Addr := ''127.0.0.1:8080'',
       sc_VirtualHosts := Some [''a.example'', ''a.example'']\<rparr>"

definition repeated_update :: ServiceConfig where
  "repeated_update = repeated_cfg\<lparr>sc_VirtualHosts := Some [''a.example'']\<rparr>"

definition reg_repeated :: Registry where
  "reg_repeated = snd (the (AddService env0 Registry_init repeated_cfg))"

definition reg_repeated_updated :: Registry where
  "reg_repeated_updated = snd (the (UpdateService env0 reg_repeated repeated_update))"

definition blank_first_cfg :: ServiceConfig where
  "blank_first_cfg =
     ServiceConfig_zero\<lparr>sc_Name := ''web'', sc_Addr := ''127.0.0.1:8080'',
       sc_VirtualHosts := Some ['''', ''a.example'']\<rparr>"

definition reg_blank_first :: Registry where
  "reg_blank_first = snd (the (AddService env0 Registry_init blank_first_cfg))"

definition reg_blank_first_updated :: Registry where
  "reg_blank_first_updated = snd (the (UpdateService env0 reg_blank_first repeated_update))"


section \<open>Properties\<close>

subsection \<open>HTTPS redirection\<close>

text \<open>
  C1.  On a service with \<open>HTTPSRedirect\<close> set, \<open>ServeHTTP\<close> answers with the 301 redirect
  to \<open>https://<host><request-uri>\<close> exactly when the request is a TLS request or does
  not carry \<open>X-Forwarded-Proto: https\<close>.  A TLS request is therefore always redirected,
  where the documented behaviour (redirect requests that are not https) has it never
  redirected.
\<close>

theorem C1_ServeHTTP_redirects_tls:
  assumes "s_HTTPSRedirect s"
  shows "fst (ServeHTTP errorPages_Get s r)
           = Redirect (''https://'' @ rq_Host r @ rq_RequestURI r) 301
         \<longleftrightarrow> (rq_TLS r \<or> Header_Get (rq_Header r) ''X-Forwarded-Proto'' \<noteq> ''https'')"
  using assms
  by (auto simp: ServeHTTP_def Let_def StatusMovedPermanently_def
        StatusServiceUnavailable_def split: prod.splits)

theorem C1_ServeHTTP_redirects_tls_witness:
  "s_HTTPSRedirect web_service
   \<and> rq_TLS tls_request
   \<and> Header_Get (rq_Header tls_request) ''X-Forwarded-Proto'' = ''https''
   \<and> fst (ServeHTTP (\<lambda>code. None) web_service tls_request)
       = Redirect ''https://a.example/index.html'' 301"
proof -
  have h: "s_HTTPSRedirect web_service"
    by code_simp
  from C1_ServeHTTP_redirects_tls [OF h, of "\<lambda>code. None" tls_request] h
  show ?thesis
    by (simp add: tls_request_def Header_Get_def)
qed

subsection \<open>Merging configurations\<close>

text \<open>
  C3, as the code has it.  Each of \<open>Addr\<close>, \<open>Network\<close>, \<open>Balance\<close>, \<open>CheckInterval\<close>,
  \<open>Fall\<close>, \<open>Rise\<close>, the three timeouts, \<open>VirtualHosts\<close>, \<open>ErrorPages\<close> and \<open>Backends\<close>
  keeps the current value when the update leaves it unset and takes the update's value
  when it is set.  \<open>Name\<close>, \<open>HTTPSRedirect\<close> and \<open>MaintenanceMode\<close> are always taken
  from the update.
\<close>

theorem C3_Merge_fields:
  "(sc_Addr cfg = '''' \<longrightarrow> sc_Addr (Merge s cfg) = sc_Addr s)
   \<and> (sc_Network cfg = '''' \<longrightarrow> sc_Network (Merge s cfg) = sc_Network s)
   \<and> (sc_Balance cfg = '''' \<longrightarrow> sc_Balance (Merge s cfg) = sc_Balance s)
   \<and> (sc_CheckInterval cfg = 0 \<longrightarrow> sc_CheckInterval (Merge s cfg) = sc_CheckInterval s)
   \<and> (sc_Fall cfg = 0 \<longrightarrow> sc_Fall (Merge s cfg) = sc_Fall s)
   \<and> (sc_Rise cfg = 0 \<longrightarrow> sc_Rise (Merge s cfg) = sc_Rise s)
   \<and> (sc_ClientTimeout cfg = 0 \<longrightarrow> sc_ClientTimeout (Merge s cfg) = sc_ClientTimeout s)
   \<and> (sc_ServerTimeout cfg = 0 \<longrightarrow> sc_ServerTimeout (Merge s cfg) = sc_ServerTimeout s)
   \<and> (sc_DialTimeout cfg = 0 \<longrightarrow> sc_DialTimeout (Merge s cfg) = sc_DialTimeout s)
   \<and> (sc_VirtualHosts cfg = None \<longrightarrow> sc_VirtualHosts (Merge s cfg) = sc_VirtualHosts s)
   \<and> (sc_ErrorPages cfg = None \<longrightarrow> sc_ErrorPages (Merge s cfg) = sc_ErrorPages s)
   \<and> (sc_Backends cfg = None \<longrightarrow> sc_Backends (Merge s cfg) = sc_Backends s)
   \<and> (sc_Addr cfg \<noteq> '''' \<longrightarrow> sc_Addr (Merge s cfg) = sc_Addr cfg)
   \<and> (sc_Network cfg \<noteq> '''' \<longrightarrow> sc_Network (Merge s cfg) = sc_Network cfg)
   \<and> (sc_Balance cfg \<noteq> '''' \<longrightarrow> sc_Balance (Merge s cfg) = sc_Balance cfg)
   \<and> (sc_CheckInterval cfg \<noteq> 0 \<longrightarrow> sc_CheckInterval (Merge s cfg) = sc_CheckInterval cfg)
   \<and> (sc_Fall cfg \<noteq> 0 \<longrightarrow> sc_Fall (Merge s cfg) = sc_Fall cfg)
   \<and> (sc_Rise cfg \<noteq> 0 \<longrightarrow> sc_Rise (Merge s cfg) = sc_Rise cfg)
   \<and> (sc_ClientTimeout cfg \<noteq> 0 \<longrightarrow> sc_ClientTimeout (Merge s cfg) = sc_ClientTimeout cfg)
   \<and> (sc_ServerTimeout cfg \<noteq> 0 \<longrightarrow> sc_ServerTimeout (Merge s cfg) = sc_ServerTimeout cfg)
   \<and> (sc_DialTimeout cfg \<noteq> 0 \<longrightarrow> sc_DialTimeout (Merge s cfg) = sc_DialTimeout cfg)
   \<and> (sc_VirtualHosts cfg \<noteq> None \<longrightarrow> sc_VirtualHosts (Merge s cfg) = sc_VirtualHosts cfg)
   \<and> (sc_ErrorPages cfg \<noteq> None \<longrightarrow> sc_ErrorPages (Merge s cfg) = sc_ErrorPages cfg)
   \<and> (sc_Backends cfg \<noteq> None \<longrightarrow> sc_Backends (Merge s cfg) = sc_Backends cfg)
   \<and> sc_Name (Merge s cfg) = sc_Name cfg
   \<and> sc_HTTPSRedirect (Merge s cfg) = sc_HTTPSRedirect cfg
   \<and> sc_MaintenanceMode (Merge s cfg) = sc_MaintenanceMode cfg"
  by (simp add: Merge_def)

theorem C3_Merge_fields_witness:
  "sc_Addr ServiceConfig_zero = '''' \<and> sc_Fall ServiceConfig_zero = 0
   \<and> sc_VirtualHosts ServiceConfig_zero = None
   \<and> sc_Addr (Merge web_cfg ServiceConfig_zero) = ''127.0.0.1:8080''
   \<and> sc_Fall (Merge web_cfg ServiceConfig_zero) = 3
   \<and> sc_VirtualHosts (Merge web_cfg ServiceConfig_zero) = Some [''a.example'']
   \<and> sc_Fall (Merge web_cfg (ServiceConfig_zero\<lparr>sc_Fall := 5\<rparr>)) = 5
   \<and> sc_Name (Merge web_cfg ServiceConfig_zero) = ''''"
  using C3_Merge_fields [of ServiceConfig_zero web_cfg]
    C3_Merge_fields [of "ServiceConfig_zero\<lparr>sc_Fall := 5\<rparr>" web_cfg]
  by (simp add: web_cfg_def ServiceConfig_zero_def)

text \<open>
  C3 as stated fails: an update that leaves \<open>HTTPSRedirect\<close> and \<open>MaintenanceMode\<close>
  unset (\<open>false\<close>) clears both flags of a configuration that had them set.
\<close>

theorem C3_Merge_flags_counterexample:
  "sc_HTTPSRedirect ServiceConfig_zero = False
   \<and> sc_HTTPSRedirect web_cfg = True
   \<and> sc_HTTPSRedirect (Merge web_cfg ServiceConfig_zero) = False
   \<and> sc_MaintenanceMode ServiceConfig_zero = False
   \<and> sc_MaintenanceMode web_cfg = True
   \<and> sc_MaintenanceMode (Merge web_cfg ServiceConfig_zero) = False"
  by (simp add: Merge_def web_cfg_def ServiceConfig_zero_def)

subsection \<open>Equality of configurations\<close>

lemma ServiceConfig_eq_split:
  "(a = b) \<longleftrightarrow>
     (a\<lparr>sc_VirtualHosts := None, sc_ErrorPages := None\<rparr>
        = b\<lparr>sc_VirtualHosts := None, sc_ErrorPages := None\<rparr>
      \<and> sc_VirtualHosts a = sc_VirtualHosts b \<and> sc_ErrorPages a = sc_ErrorPages b)"
  for a b :: ServiceConfig
  by (cases a; cases b) auto

lemma SetDefaults_hosts_pages:
  "sc_VirtualHosts (ServiceConfig_SetDefaults s) = sc_VirtualHosts s"
  "sc_ErrorPages (ServiceConfig_SetDefaults s) = sc_ErrorPages s"
  "sc_Backends (ServiceConfig_SetDefaults s) = sc_Backends s"
  "ServiceConfig_SetDefaults (s\<lparr>sc_VirtualHosts := v\<rparr>)
     = (ServiceConfig_SetDefaults s)\<lparr>sc_VirtualHosts := v\<rparr>"
  "ServiceConfig_SetDefaults (s\<lparr>sc_ErrorPages := e\<rparr>)
     = (ServiceConfig_SetDefaults s)\<lparr>sc_ErrorPages := e\<rparr>"
  "ServiceConfig_SetDefaults (s\<lparr>sc_Backends := bs\<rparr>)
     = (ServiceConfig_SetDefaults s)\<lparr>sc_Backends := bs\<rparr>"
  by (simp_all add: ServiceConfig_SetDefaults_def split del: if_split cong del: if_weak_cong)

lemma Equal_compares:
  assumes "other_fields s = other_fields other"
  shows "ServiceConfig_Equal s other
           \<longleftrightarrow> (map_option sort (sc_VirtualHosts s) = sc_VirtualHosts other
                \<and> sc_ErrorPages s = sc_ErrorPages other)"
proof -
  let ?s2 = "(ServiceConfig_SetDefaults (s\<lparr>sc_Backends := None\<rparr>))
               \<lparr>sc_VirtualHosts := map_option sort (sc_VirtualHosts s)\<rparr>"
  let ?o1 = "ServiceConfig_SetDefaults (other\<lparr>sc_Backends := None\<rparr>)"
  have e: "ServiceConfig_Equal s other \<longleftrightarrow> ?s2 = ?o1"
    by (simp add: ServiceConfig_Equal_def Let_def SetDefaults_hosts_pages)
  have r: "?s2\<lparr>sc_VirtualHosts := None, sc_ErrorPages := None\<rparr> = other_fields s"
          "?o1\<lparr>sc_VirtualHosts := None, sc_ErrorPages := None\<rparr> = other_fields other"
    by (simp_all add: other_fields_def SetDefaults_hosts_pages)
  have v: "sc_VirtualHosts ?s2 = map_option sort (sc_VirtualHosts s)"
          "sc_VirtualHosts ?o1 = sc_VirtualHosts other"
          "sc_ErrorPages ?s2 = sc_ErrorPages s"
          "sc_ErrorPages ?o1 = sc_ErrorPages other"
    by (simp_all add: SetDefaults_hosts_pages)
  show ?thesis
    unfolding e
    by (subst ServiceConfig_eq_split) (simp only: r v assms, simp)
qed

text \<open>
  C9, as the code has it.  Take two configurations that agree on every field other
  than \<open>Backends\<close>, \<open>VirtualHosts\<close> and \<open>ErrorPages\<close> once the defaults are applied, the
  argument's virtual hosts being in sorted order.  \<open>Equal\<close> returns true exactly when
  the error pages are deeply equal and the two lists of virtual hosts are equal once
  sorted.  Only the backends are ignored.
\<close>

theorem C9_Equal_compares_hosts_and_pages:
  assumes "other_fields s = other_fields other"
    and "sorted (slice (sc_VirtualHosts other))"
  shows "ServiceConfig_Equal s other
           \<longleftrightarrow> (map_option sort (sc_VirtualHosts s) = map_option sort (sc_VirtualHosts other)
                \<and> sc_ErrorPages s = sc_ErrorPages other)"
proof -
  have "map_option sort (sc_VirtualHosts other) = sc_VirtualHosts other"
    using assms(2) by (cases "sc_VirtualHosts other") (simp_all add: slice_def sorted_sort_id)
  then show ?thesis
    using Equal_compares [OF assms(1)] by simp
qed

theorem C9_Equal_compares_hosts_and_pages_witness:
  "other_fields (web_cfg\<lparr>sc_VirtualHosts := Some [''b.example'', ''a.example'']\<rparr>)
     = other_fields (web_cfg\<lparr>sc_VirtualHosts := Some [''a.example'', ''b.example''],
                            sc_Backends := Some []\<rparr>)
   \<and> sorted (slice (sc_VirtualHosts
         (web_cfg\<lparr>sc_VirtualHosts := Some [''a.example'', ''b.example''],
                  sc_Backends := Some []\<rparr>)))
   \<and> ServiceConfig_Equal (web_cfg\<lparr>sc_VirtualHosts := Some [''b.example'', ''a.example'']\<rparr>)
        (web_cfg\<lparr>sc_VirtualHosts := Some [''a.example'', ''b.example''],
                 sc_Backends := Some []\<rparr>)"
proof -
  let ?s = "web_cfg\<lparr>sc_VirtualHosts := Some [''b.example'', ''a.example'']\<rparr>"
  let ?o = "web_cfg\<lparr>sc_VirtualHosts := Some [''a.example'', ''b.example''],
                     sc_Backends := Some []\<rparr>"
  have h: "other_fields ?s = other_fields ?o"
    by (simp add: other_fields_def)
  have o: "sorted (slice (sc_VirtualHosts ?o))"
    by (simp add: slice_def)
  have "map_option sort (sc_VirtualHosts ?s) = map_option sort (sc_VirtualHosts ?o)"
    by simp
  moreover have "sc_ErrorPages ?s = sc_ErrorPages ?o"
    by simp
  ultimately show ?thesis
    using C9_Equal_compares_hosts_and_pages [OF h o] h o by simp
qed

text \<open>
  C9 as stated fails: two configurations that differ only in their virtual hosts are
  not \<open>Equal\<close>.
\<close>

theorem C9_Equal_hosts_counterexample:
  "other_fields (ServiceConfig_zero\<lparr>sc_VirtualHosts := Some [''a.example'']\<rparr>)
     = other_fields (ServiceConfig_zero\<lparr>sc_VirtualHosts := Some [''b.example'']\<rparr>)
   \<and> sc_ErrorPages (ServiceConfig_zero\<lparr>sc_VirtualHosts := Some [''a.example'']\<rparr>)
     = sc_ErrorPages (ServiceConfig_zero\<lparr>sc_VirtualHosts := Some [''b.example'']\<rparr>)
   \<and> sc_Backends (ServiceConfig_zero\<lparr>sc_VirtualHosts := Some [''a.example'']\<rparr>)
     = sc_Backends (ServiceConfig_zero\<lparr>sc_VirtualHosts := Some [''b.example'']\<rparr>)
   \<and> \<not> ServiceConfig_Equal (ServiceConfig_zero\<lparr>sc_VirtualHosts := Some [''a.example'']\<rparr>)
         (ServiceConfig_zero\<lparr>sc_VirtualHosts := Some [''b.example'']\<rparr>)"
  by (simp add: ServiceConfig_Equal_def other_fields_def ServiceConfig_SetDefaults_def
        ServiceConfig_zero_def)

subsection \<open>Weighted round-robin\<close>

lemma rr_repeat:
  assumes "s_next s = RoundRobinPolicy" "filter b_up (s_Backends s) = ups" "ups \<noteq> []"
    "s_lastBackend s = lb" "s_lastCount s = lc"
    "0 \<le> lb" "lb < int (length ups)" "lc < b_Weight (ups ! nat lb)"
  shows "next_backends s = (rotate (nat lb) ups, s\<lparr>s_lastCount := lc + 1\<rparr>)"
  using assms by (simp add: next_backends_def roundRobin_def Let_def)

lemma rr_advance:
  assumes "s_next s = RoundRobinPolicy" "filter b_up (s_Backends s) = ups" "ups \<noteq> []"
    "s_lastBackend s = lb" "s_lastCount s = lc"
    "0 \<le> lb" "lb < int (length ups)" "\<not> lc < b_Weight (ups ! nat lb)"
  shows "next_backends s =
    (rotate (nat ((lb + 1) mod int (length ups))) ups,
     s\<lparr>s_lastBackend := (lb + 1) mod int (length ups), s_lastCount := 1\<rparr>)"
  using assms by (simp add: next_backends_def roundRobin_def Let_def)

lemma seven_heads:
  assumes "s_next s = RoundRobinPolicy" "s_Backends s = [b0, b1, b2]"
    "b_up b0" "b_up b1" "b_up b2"
    "b_Weight b0 = 1" "b_Weight b1 = 2" "b_Weight b2 = 3"
    "s_lastBackend s = 0" "s_lastCount s = 0"
  shows "next_heads 7 s =
      [Some (b_Name b0), Some (b_Name b1), Some (b_Name b1),
       Some (b_Name b2), Some (b_Name b2), Some (b_Name b2), Some (b_Name b0)]"
proof -
  let ?ups = "[b0, b1, b2]"
  define s1 where "s1 = s\<lparr>s_lastCount := 1\<rparr>"
  define s2 where "s2 = s1\<lparr>s_lastBackend := 1, s_lastCount := 1\<rparr>"
  define s3 where "s3 = s2\<lparr>s_lastCount := 2\<rparr>"
  define s4 where "s4 = s3\<lparr>s_lastBackend := 2, s_lastCount := 1\<rparr>"
  define s5 where "s5 = s4\<lparr>s_lastCount := 2\<rparr>"
  define s6 where "s6 = s5\<lparr>s_lastCount := 3\<rparr>"
  define s7 where "s7 = s6\<lparr>s_lastBackend := 0, s_lastCount := 1\<rparr>"
  have n1: "next_backends s = ([b0, b1, b2], s1)"
    using rr_repeat [of s ?ups 0 0] assms by (simp add: eval_nat_numeral s1_def)
  have n2: "next_backends s1 = ([b1, b2, b0], s2)"
    using rr_advance [of s1 ?ups 0 1] assms by (simp add: eval_nat_numeral s1_def s2_def)
  have n3: "next_backends s2 = ([b1, b2, b0], s3)"
    using rr_repeat [of s2 ?ups 1 1] assms
    by (simp add: eval_nat_numeral s1_def s2_def s3_def)
  have n4: "next_backends s3 = ([b2, b0, b1], s4)"
    using rr_advance [of s3 ?ups 1 2] assms
    by (simp add: eval_nat_numeral s1_def s2_def s3_def s4_def)
  have n5: "next_backends s4 = ([b2, b0, b1], s5)"
    using rr_repeat [of s4 ?ups 2 1] assms
    by (simp add: eval_nat_numeral s1_def s2_def s3_def s4_def s5_def)
  have n6: "next_backends s5 = ([b2, b0, b1], s6)"
    using rr_repeat [of s5 ?ups 2 2] assms
    by (simp add: eval_nat_numeral s1_def s2_def s3_def s4_def s5_def s6_def)
  have n7: "next_backends s6 = ([b0, b1, b2], s7)"
    using rr_advance [of s6 ?ups 2 3] assms
    by (simp add: eval_nat_numeral s1_def s2_def s3_def s4_def s5_def s6_def s7_def)
  show ?thesis
    by (simp add: eval_nat_numeral n1 n2 n3 n4 n5 n6 n7 del: rotate_Suc rotate0)
qed

lemma roundRobin_step:
  assumes "ups = filter b_up (s_Backends t)" "ups \<noteq> []"
    "0 \<le> s_lastBackend t" "s_lastBackend t < int (length ups)"
  shows "(if s_lastCount t < b_Weight (ups ! nat (s_lastBackend t))
          then s_lastBackend (snd (roundRobin t)) = s_lastBackend t
               \<and> s_lastCount (snd (roundRobin t)) = s_lastCount t + 1
          else s_lastBackend (snd (roundRobin t)) = (s_lastBackend t + 1) mod int (length ups)
               \<and> s_lastCount (snd (roundRobin t)) = 1)
         \<and> hd (fst (roundRobin t)) = ups ! nat (s_lastBackend (snd (roundRobin t)))"
proof -
  let ?N = "int (length ups)"
  have N: "0 < ?N" using assms(2) by simp
  have m: "0 \<le> (s_lastBackend t + 1) mod ?N" "(s_lastBackend t + 1) mod ?N < ?N"
    using N by simp_all
  have h1: "nat (s_lastBackend t) mod length ups = nat (s_lastBackend t)"
    using assms(3,4) by simp
  have h2: "nat ((s_lastBackend t + 1) mod ?N) mod length ups
              = nat ((s_lastBackend t + 1) mod ?N)"
    using m by (simp add: nat_less_iff)
  show ?thesis
  proof (cases "s_lastCount t < b_Weight (ups ! nat (s_lastBackend t))")
    case True
    then have "roundRobin t
        = (rotate (nat (s_lastBackend t)) ups, t\<lparr>s_lastCount := s_lastCount t + 1\<rparr>)"
      using assms by (simp add: roundRobin_def Let_def)
    then show ?thesis using True assms(2) h1 by (simp add: hd_rotate_conv_nth)
  next
    case False
    then have "roundRobin t
        = (rotate (nat ((s_lastBackend t + 1) mod ?N)) ups,
           t\<lparr>s_lastBackend := (s_lastBackend t + 1) mod ?N, s_lastCount := 1\<rparr>)"
      using assms by (simp add: roundRobin_def Let_def)
    then show ?thesis using False assms(2) h2 by (simp add: hd_rotate_conv_nth)
  qed
qed

text \<open>
  C5.  A service as \<open>NewService\<close> leaves it (\<open>lastBackend = 0\<close>, \<open>lastCount = 0\<close>) under
  round-robin balancing, with the Up backends \<open>b0\<close>, \<open>b1\<close>, \<open>b2\<close> of weights 1, 2, 3:
  the heads of seven successive selections are \<open>b0, b1, b1, b2, b2, b2, b0\<close>.  In
  general, on a service \<open>t\<close> with \<open>N > 0\<close> Up backends and \<open>lastBackend\<close> in range, a
  call repeats the head and increments \<open>lastCount\<close> if \<open>lastCount < weight(lastBackend)\<close>,
  and otherwise advances \<open>lastBackend\<close> to \<open>(lastBackend + 1) mod N\<close> with \<open>lastCount = 1\<close>;
  the head of the returned list is the backend at the new \<open>lastBackend\<close>.
\<close>

theorem C5_weighted_round_robin:
  assumes "s_next s = RoundRobinPolicy" "s_Backends s = [b0, b1, b2]"
    "b_up b0" "b_up b1" "b_up b2"
    "b_Weight b0 = 1" "b_Weight b1 = 2" "b_Weight b2 = 3"
    "s_lastBackend s = 0" "s_lastCount s = 0"
  shows "next_heads 7 s =
           [Some (b_Name b0), Some (b_Name b1), Some (b_Name b1),
            Some (b_Name b2), Some (b_Name b2), Some (b_Name b2), Some (b_Name b0)]
         \<and> (ups = filter b_up (s_Backends t) \<and> ups \<noteq> []
              \<and> 0 \<le> s_lastBackend t \<and> s_lastBackend t < int (length ups)
            \<longrightarrow> (if s_lastCount t < b_Weight (ups ! nat (s_lastBackend t))
                 then s_lastBackend (snd (roundRobin t)) = s_lastBackend t
                      \<and> s_lastCount (snd (roundRobin t)) = s_lastCount t + 1
                 else s_lastBackend (snd (roundRobin t))
                        = (s_lastBackend t + 1) mod int (length ups)
                      \<and> s_lastCount (snd (roundRobin t)) = 1)
                \<and> hd (fst (roundRobin t)) = ups ! nat (s_lastBackend (snd (roundRobin t))))"
  using seven_heads [OF assms] roundRobin_step [of ups t] by blast

theorem C5_weighted_round_robin_witness:
  "s_next weighted_service = RoundRobinPolicy
   \<and> map (\<lambda>b. (b_Name b, b_Weight b, b_up b)) (s_Backends weighted_service)
       = [(''backend_0'', 1, True), (''backend_1'', 2, True), (''backend_2'', 3, True)]
   \<and> s_lastBackend weighted_service = 0 \<and> s_lastCount weighted_service = 0
   \<and> next_heads 7 weighted_service =
        [Some ''backend_0'', Some ''backend_1'', Some ''backend_1'',
         Some ''backend_2'', Some ''backend_2'', Some ''backend_2'', Some ''backend_0'']
   \<and> s_lastBackend (snd (roundRobin weighted_service)) = 0
   \<and> s_lastCount (snd (roundRobin weighted_service)) = 1"
proof -
  let ?bs = "s_Backends weighted_service"
  have a1: "s_next weighted_service = RoundRobinPolicy" by code_simp
  have a2: "?bs = [?bs ! 0, ?bs ! 1, ?bs ! 2]" by code_simp
  have a3: "b_up (?bs ! 0)" "b_up (?bs ! 1)" "b_up (?bs ! 2)" by code_simp+
  have a4: "b_Weight (?bs ! 0) = 1" "b_Weight (?bs ! 1) = 2" "b_Weight (?bs ! 2) = 3"
    by code_simp+
  have a5: "s_lastBackend weighted_service = 0" "s_lastCount weighted_service = 0"
    by code_simp+
  have n: "b_Name (?bs ! 0) = ''backend_0''" "b_Name (?bs ! 1) = ''backend_1''"
    "b_Name (?bs ! 2) = ''backend_2''"
    by code_simp+
  have m: "map (\<lambda>b. (b_Name b, b_Weight b, b_up b)) ?bs
       = [(''backend_0'', 1, True), (''backend_1'', 2, True), (''backend_2'', 3, True)]"
    by code_simp
  have u: "filter b_up ?bs = ?bs" "?bs \<noteq> []" by code_simp+
  have w: "s_lastCount weighted_service < b_Weight (?bs ! nat (s_lastBackend weighted_service))"
    by code_simp
  have r: "(0::int) < int (length ?bs)" by code_simp
  from C5_weighted_round_robin [OF a1 a2 a3 a4 a5, of ?bs weighted_service] u w r a5 n
  have "next_heads 7 weighted_service =
        [Some ''backend_0'', Some ''backend_1'', Some ''backend_1'',
         Some ''backend_2'', Some ''backend_2'', Some ''backend_2'', Some ''backend_0'']
       \<and> s_lastBackend (snd (roundRobin weighted_service)) = 0
       \<and> s_lastCount (snd (roundRobin weighted_service)) = 1"
    by simp
  with a1 m a5 show ?thesis by simp
qed

subsection \<open>Network families\<close>

lemma add_installs:
  assumes "add s backend = Some s'"
  shows "\<exists>b \<in> set (s_Backends s'). b_Name b = b_Name backend \<and> b_Network b = b_Network backend"
proof -
  let ?b = "backend\<lparr>b_up := True, b_rwTimeout := s_ServerTimeout s,
              b_dialTimeout := s_DialTimeout s,
              b_checkInterval := ms_duration (s_CheckInterval s)\<rparr>"
  have r: "replace_backend bs b = Some bs' \<Longrightarrow> b \<in> set bs'" for bs bs' and b :: Backend
    by (induction bs arbitrary: bs') (auto split: if_splits)
  have "?b \<in> set (s_Backends s')"
    using assms
    by (auto simp: add_def Let_def split: if_splits option.splits dest!: r)
  moreover have "b_Name ?b = b_Name backend \<and> b_Network ?b = b_Network backend"
    by simp
  ultimately show ?thesis
    by blast
qed

text \<open>
  C6.  \<open>Service.add\<close> compares the network families and only logs the mismatch: a
  service listening on \<open>tcp\<close> that is handed a \<open>udp\<close> backend (through \<open>AddBackend\<close>)
  holds that backend afterwards.
\<close>

theorem C6_add_installs_other_family:
  "map_option (\<lambda>(err, r). (err, network_families r))
     (Option.bind (AddService env0 Registry_init plain_cfg)
        (\<lambda>(err, r). AddBackend r ''web'' (backend_cfg ''dns'' ''10.0.0.5:53'' ''udp'' 0)))
   = Some (None, [(''web'', ''tcp'', [''udp''])])"
  by code_simp

subsection \<open>Choosing a service of a virtual host\<close>

lemma cycle_result:
  assumes "v_services v \<noteq> []" "\<forall>n \<in> set (v_services v). map_of svcs n \<noteq> None"
  shows "cycle svcs v is = Some None
         \<or> (\<exists>idx. cycle svcs v is = Some (Some idx) \<and> idx < length (v_services v))"
proof (induction "is")
  case Nil
  then show ?case by simp
next
  case (Cons i "is")
  let ?idx = "nat ((v_last v + int i) mod int (length (v_services v)))"
  have l: "?idx < length (v_services v)"
    using assms(1) by (simp add: nat_less_iff)
  then have "v_services v ! ?idx \<in> set (v_services v)" by simp
  then obtain s where "map_of svcs (v_services v ! ?idx) = Some s"
    using assms(2) by blast
  then have a: "available_at svcs (v_services v) ?idx = Some (Available s)"
    by (simp add: available_at_def)
  show ?case
    using Cons l a by (simp add: Let_def)
qed

text \<open>
  With the last-served index inside the list, \<open>VirtualHost.Service\<close> returns a service
  of the virtual host, whether or not one has an available backend.
\<close>

lemma VirtualHost_Service_in_range:
  assumes "v_services v \<noteq> []" "\<forall>n \<in> set (v_services v). map_of svcs n \<noteq> None"
    and "0 \<le> v_last v" "v_last v < int (length (v_services v))"
  shows "\<exists>n v'. VirtualHost_Service svcs v = Some (Some n, v') \<and> n \<in> set (v_services v)"
  using cycle_result [OF assms(1,2), of "[1 ..< Suc (length (v_services v))]"] assms
  by (auto simp: VirtualHost_Service_def)

text \<open>
  C10.  Services \<open>a\<close> (no backend) and \<open>b\<close> (one Up backend) answer for \<open>h.example\<close>.
  A request is served by \<open>b\<close>, which leaves \<open>last = 1\<close>; then \<open>b\<close> is removed.  The
  virtual host still lists \<open>a\<close>, with \<open>last = 1\<close>, and no service of it has an
  available backend: \<open>VirtualHost.Service\<close> indexes \<open>v.services[1]\<close> in a list of
  length one and panics instead of returning a service.
\<close>

theorem C10_Service_stale_index_panics:
  "map_option vhost_table reg_ab = Some [(''h.example'', [''a'', ''b''], 0)]
   \<and> map_option (map_option fst) (map_option (\<lambda>r. GetVHostService r ''h.example'') reg_ab)
       = Some (Some (Some ''b''))
   \<and> map_option vhost_table reg_a_stale = Some [(''h.example'', [''a''], 1)]
   \<and> map_option (\<lambda>r. map (\<lambda>(n, s). (n, Available s)) (r_svcs r)) reg_a_stale
       = Some [(''a'', 0)]
   \<and> Option.bind reg_a_stale (\<lambda>r. GetVHostService r ''h.example'') = None"
  by code_simp

subsection \<open>UDP connection tracking\<close>

lemma runUDP_round_never_hits:
  "runUDP_round st d = Some (c, st') \<Longrightarrow> u_hits st' = u_hits st"
  by (auto simp: runUDP_round_def Let_def split: if_splits prod.splits option.splits)

text \<open>
  C2.  Two datagrams arrive from the same client address \<open>10.0.0.1:5000\<close> at a UDP
  service with one Up backend.  Both have the same connection-tracking key, yet the
  lookup misses both times and \<open>DialUDP\<close> is called twice: the table that is looked up
  is created anew for each datagram.
\<close>

theorem C2_runUDP_dials_for_every_datagram:
  "map_option (\<lambda>st. (u_dialed st, u_hits st))
     (Option.bind (NewService udp_cfg)
       (\<lambda>s. runUDP \<lparr>u_service = s, u_dialed = [], u_hits = 0\<rparr>
              [datagram_from client_addr, datagram_from client_addr]))
   = Some ([(\<lparr>IPHigh = 0, IPLow = 0x0A000001, Port = 5000\<rparr>, 0),
            (\<lparr>IPHigh = 0, IPLow = 0x0A000001, Port = 5000\<rparr>, 1)], 0)"
  by code_simp

subsection \<open>Port conflicts in \<open>UpdateConfig\<close>\<close>

text \<open>
  C7.  The admin listener is on port 9090.  A configuration names the service \<open>clash\<close>
  on \<open>10.0.0.1:9090\<close> and the service \<open>ok\<close>: the returned \<open>multiError\<close> holds the port
  conflict, \<open>ok\<close> is processed, and \<open>clash\<close> is added to the registry all the same.  A
  second configuration for \<open>clash\<close> is reported as a conflict again, and updates the
  service (\<open>Fall\<close> becomes 7).
\<close>

theorem C7_port_conflict_still_applied:
  "invalidPorts env0 = [''9090'']
   \<and> map_option (\<lambda>(errors, r). (errors, service_table r))
        (UpdateConfig env0 Registry_init clash_config)
       = Some (Some [ErrPortConflict ''clash'' ''9090''],
               [(''clash'', ''10.0.0.1:9090'', 2), (''ok'', ''10.0.0.1:8081'', 2)])
   \<and> map_option (\<lambda>(errors, r). (errors, service_table r))
        (Option.bind (UpdateConfig env0 Registry_init clash_config)
           (\<lambda>(errors, r). UpdateConfig env0 r clash_update))
       = Some (Some [ErrPortConflict ''clash'' ''9090''],
               [(''clash'', ''10.0.0.1:9090'', 7), (''ok'', ''10.0.0.1:8081'', 2)])"
  by code_simp

subsection \<open>Fields that need a new service\<close>

lemma wrap64_id: "- (2 ^ 63) \<le> x \<Longrightarrow> x < 2 ^ 63 \<Longrightarrow> wrap64 x = x"
  by (simp add: wrap64_def)

lemma ms_duration_in_range: "ms_in_range ms \<Longrightarrow> ms_duration ms = ms * 1000000"
  by (simp add: ms_duration_def Millisecond_def ms_in_range_def wrap64_id)

lemma duration_ms_inverse: "duration_ms (ms * 1000000) = ms"
proof -
  have "sgn ms * \<bar>ms\<bar> = ms"
    by (rule mult_sgn_abs)
  then show ?thesis
    by (simp add: duration_ms_def go_div_def Millisecond_def abs_mult sgn_mult)
qed

lemma UpdateService_rejects:
  assumes "GetService r (sc_Name cfg) = Some svc"
    and "Service_UpdateConfig svc (Merge (config svc) cfg) = Inl err"
  shows "UpdateService env r cfg = Some (Some err, r)"
  using assms by (simp add: UpdateService_def GetService_def Let_def)

lemma UpdateService_accepts:
  assumes "GetService r (sc_Name cfg) = Some svc"
    and "Service_UpdateConfig svc (Merge (config svc) cfg) = Inr svc1"
  shows "UpdateService env r cfg \<noteq> Some (Some err, r')"
  using assms
  by (simp add: UpdateService_def GetService_def Let_def
        split: option.splits prod.splits if_splits)

lemma Service_UpdateConfig_cases:
  "Service_UpdateConfig s c = Inl ErrInvalidServiceUpdate
   \<or> (\<exists>s1. Service_UpdateConfig s c = Inr s1)"
  by (simp add: Service_UpdateConfig_def Let_def)

lemma Service_UpdateConfig_Inl_iff:
  "Service_UpdateConfig s c = Inl ErrInvalidServiceUpdate
     \<longleftrightarrow> (s_ClientTimeout s \<noteq> ms_duration (sc_ClientTimeout c)
          \<or> (s_Addr s \<noteq> '''' \<and> s_Addr s \<noteq> sc_Addr c))"
  by (simp add: Service_UpdateConfig_def Let_def)

text \<open>
  C4, as the code has it.  For a registered service with a non-empty \<open>Addr\<close>, and
  client timeouts in the range where milliseconds convert to a \<open>time.Duration\<close> without
  overflow: an update whose merged configuration changes \<open>Addr\<close> or \<open>ClientTimeout\<close>
  returns \<open>ErrInvalidServiceUpdate\<close> and leaves the registry as it was; an update whose
  merged configuration keeps both does not return that error.
\<close>

theorem C4_UpdateService_immutable_fields:
  assumes "GetService r (sc_Name cfg) = Some svc"
    and "s_Addr svc \<noteq> ''''"
    and "s_ClientTimeout svc = ms_duration ms" and "ms_in_range ms"
    and "ms_in_range (sc_ClientTimeout cfg)"
  shows "if sc_Addr (Merge (config svc) cfg) \<noteq> sc_Addr (config svc)
            \<or> sc_ClientTimeout (Merge (config svc) cfg) \<noteq> sc_ClientTimeout (config svc)
         then UpdateService env r cfg = Some (Some ErrInvalidServiceUpdate, r)
         else (\<forall>r'. UpdateService env r cfg \<noteq> Some (Some ErrInvalidServiceUpdate, r'))"
proof -
  let ?m = "Merge (config svc) cfg"
  have cur: "sc_ClientTimeout (config svc) = ms" "sc_Addr (config svc) = s_Addr svc"
    using assms(3,4) by (simp_all add: config_def ms_duration_in_range duration_ms_inverse)
  have mct: "sc_ClientTimeout ?m
      = (if sc_ClientTimeout cfg \<noteq> 0 then sc_ClientTimeout cfg else ms)"
    using cur by (simp add: Merge_def)
  then have rng: "ms_in_range (sc_ClientTimeout ?m)"
    using assms(4,5) by simp
  have ct: "s_ClientTimeout svc \<noteq> ms_duration (sc_ClientTimeout ?m)
              \<longleftrightarrow> sc_ClientTimeout ?m \<noteq> sc_ClientTimeout (config svc)"
    using assms(3,4) rng cur by (auto simp: ms_duration_in_range)
  have iff: "Service_UpdateConfig svc ?m = Inl ErrInvalidServiceUpdate
        \<longleftrightarrow> (sc_Addr ?m \<noteq> sc_Addr (config svc)
             \<or> sc_ClientTimeout ?m \<noteq> sc_ClientTimeout (config svc))"
    unfolding Service_UpdateConfig_Inl_iff ct using assms(2) cur by auto
  show ?thesis
  proof (cases "Service_UpdateConfig svc ?m = Inl ErrInvalidServiceUpdate")
    case True
    then show ?thesis
      using iff UpdateService_rejects [OF assms(1)] by simp
  next
    case False
    then obtain svc1 where "Service_UpdateConfig svc ?m = Inr svc1"
      using Service_UpdateConfig_cases [of svc ?m] by blast
    then show ?thesis
      using False iff UpdateService_accepts [OF assms(1)] by simp
  qed
qed

theorem C4_UpdateService_immutable_fields_witness:
  "AddService env0 Registry_init plain_cfg = Some (None, plain_registry)
   \<and> UpdateService env0 plain_registry (plain_cfg\<lparr>sc_Addr := ''127.0.0.1:9425''\<rparr>)
       = Some (Some ErrInvalidServiceUpdate, plain_registry)
   \<and> UpdateService env0 plain_registry (plain_cfg\<lparr>sc_ClientTimeout := 1234\<rparr>)
       = Some (Some ErrInvalidServiceUpdate, plain_registry)
   \<and> (\<forall>r'. UpdateService env0 plain_registry (plain_cfg\<lparr>sc_ServerTimeout := 1234\<rparr>)
             \<noteq> Some (Some ErrInvalidServiceUpdate, r'))"
proof -
  let ?svc = "the (GetService plain_registry ''web'')"
  have "map_option fst (AddService env0 Registry_init plain_cfg) = Some None"
    by code_simp
  then have 0: "AddService env0 Registry_init plain_cfg = Some (None, plain_registry)"
    by (auto simp: plain_registry_def)
  have "\<not> Option.is_none (GetService plain_registry ''web'')"
    by code_simp
  then have g: "GetService plain_registry ''web'' = Some ?svc"
    by (simp add: Option.is_none_def)
  have n: "sc_Name plain_cfg = ''web''" by code_simp
  have a: "s_Addr ?svc \<noteq> ''''" by code_simp
  have c: "s_ClientTimeout ?svc = ms_duration 2000" by code_simp
  have r: "ms_in_range 2000" "ms_in_range 0" "ms_in_range 1234" by code_simp+
  have z: "sc_ClientTimeout plain_cfg = 0" by code_simp
  have cur: "sc_Addr (config ?svc) = ''127.0.0.1:8080''" "sc_ClientTimeout (config ?svc) = 2000"
    by code_simp+
  have 1: "UpdateService env0 plain_registry (plain_cfg\<lparr>sc_Addr := ''127.0.0.1:9425''\<rparr>)
       = Some (Some ErrInvalidServiceUpdate, plain_registry)"
    using C4_UpdateService_immutable_fields
      [of plain_registry "plain_cfg\<lparr>sc_Addr := ''127.0.0.1:9425''\<rparr>" ?svc 2000 env0]
      g n a c r z cur
    by (simp add: Merge_def)
  have 2: "UpdateService env0 plain_registry (plain_cfg\<lparr>sc_ClientTimeout := 1234\<rparr>)
       = Some (Some ErrInvalidServiceUpdate, plain_registry)"
    using C4_UpdateService_immutable_fields
      [of plain_registry "plain_cfg\<lparr>sc_ClientTimeout := 1234\<rparr>" ?svc 2000 env0]
      g n a c r z cur
    by (simp add: Merge_def)
  have p: "sc_Addr plain_cfg = ''127.0.0.1:8080''" by code_simp
  have 3: "\<forall>r'. UpdateService env0 plain_registry (plain_cfg\<lparr>sc_ServerTimeout := 1234\<rparr>)
             \<noteq> Some (Some ErrInvalidServiceUpdate, r')"
    using C4_UpdateService_immutable_fields
      [of plain_registry "plain_cfg\<lparr>sc_ServerTimeout := 1234\<rparr>" ?svc 2000 env0]
      g n a c r z cur p
    by (simp add: Merge_def)
  from 0 1 2 3 show ?thesis by blast
qed

text \<open>
  C4 as stated fails for a service created with an empty \<open>Addr\<close>: an update that
  names an address changes the merged \<open>Addr\<close>, and is accepted.
\<close>

theorem C4_empty_Addr_counterexample:
  "map_option fst (AddService env0 Registry_init anon_cfg) = Some None
   \<and> anon_registry = snd (the (AddService env0 Registry_init anon_cfg))
   \<and> map_option (sc_Addr \<circ> config) (GetService anon_registry ''anon'') = Some ''''
   \<and> map_option (\<lambda>s. sc_Addr (Merge (config s) (anon_cfg\<lparr>sc_Addr := ''127.0.0.1:9425''\<rparr>)))
        (GetService anon_registry ''anon'') = Some ''127.0.0.1:9425''
   \<and> map_option fst (UpdateService env0 anon_registry (anon_cfg\<lparr>sc_Addr := ''127.0.0.1:9425''\<rparr>))
       = Some None"
proof -
  have "map_option fst (AddService env0 Registry_init anon_cfg) = Some None"
    by code_simp
  moreover have "map_option (sc_Addr \<circ> config) (GetService anon_registry ''anon'') = Some ''''"
    by code_simp
  moreover have "map_option
        (\<lambda>s. sc_Addr (Merge (config s) (anon_cfg\<lparr>sc_Addr := ''127.0.0.1:9425''\<rparr>)))
        (GetService anon_registry ''anon'') = Some ''127.0.0.1:9425''"
    by code_simp
  moreover have "map_option fst
        (UpdateService env0 anon_registry (anon_cfg\<lparr>sc_Addr := ''127.0.0.1:9425''\<rparr>))
       = Some None"
    by code_simp
  ultimately show ?thesis
    by (simp add: anon_registry_def)
qed

subsection \<open>The table of virtual hosts\<close>

lemma remove_first_remove1: "remove_first n xs = remove1 n xs"
  by (induction xs) auto

lemma filterEmpty_state_clean:
  assumes "\<forall>h \<in> set a. \<not> bl h"
  shows "filterEmpty_state bl a = (a, 0)"
proof -
  have "n \<le> length a \<Longrightarrow> fold (filterEmpty_step bl) [0 ..< n] (a, 0) = (a, 0)" for n
  proof (induction n)
    case 0
    then show ?case by simp
  next
    case (Suc n)
    then have "a ! n \<in> set a" by simp
    then have "\<not> bl (a ! n)" using assms by blast
    then show ?case using Suc by (simp add: filterEmpty_step_def)
  qed
  then show ?thesis by (simp add: filterEmpty_state_def)
qed

lemma filterEmpty_clean:
  assumes "clean_hosts env hosts"
  shows "map_option (filterEmpty (blank env)) hosts = hosts"
    and "map_option (filterEmpty_arr (blank env)) hosts = hosts"
  using assms
  by (cases hosts;
      simp add: clean_hosts_def slice_def list_all_iff filterEmpty_def filterEmpty_arr_def
        filterEmpty_state_clean)+

lemma clean_hosts_sort:
  "clean_hosts env hosts \<Longrightarrow> clean_hosts env (map_option sort hosts)"
  by (cases hosts) (simp_all add: clean_hosts_def slice_def list_all_iff)

lemma slice_sort: "set (slice (map_option sort hosts)) = set (slice hosts)"
  by (cases hosts) (simp_all add: slice_def)

lemma diff_hosts_sets:
  assumes "sorted_wrt (<) xs" "sorted_wrt (<) ys" "diff_hosts xs ys = (rm, ad)"
  shows "set rm = set xs - set ys \<and> set ad = set ys - set xs \<and> distinct rm"
  using assms
proof (induction xs ys arbitrary: rm ad rule: diff_hosts.induct)
  case (1 newHosts)
  then show ?case by simp
next
  case (2 old olds)
  have "distinct (old # olds)"
    using "2.prems"(1) strict_sorted_iff by blast
  moreover have "rm = old # olds" "ad = []"
    using "2.prems"(3) by simp_all
  ultimately show ?case by simp
next
  case (3 old olds new news)
  have so: "sorted_wrt (<) olds" and o1: "\<forall>x \<in> set olds. old < x"
    using "3.prems"(1) by simp_all
  have sn: "sorted_wrt (<) news" and n1: "\<forall>x \<in> set news. new < x"
    using "3.prems"(2) by simp_all
  have oo: "old \<notin> set olds" using o1 by blast
  have nn: "new \<notin> set news" using n1 by blast
  show ?case
  proof (cases "old = new")
    case True
    then have d: "diff_hosts olds news = (rm, ad)"
      using "3.prems"(3) by simp
    have "\<not> old \<noteq> new" using True by simp
    from "3.IH"(3) [OF this so sn d]
    have ih: "set rm = set olds - set news" "set ad = set news - set olds" "distinct rm"
      by simp_all
    show ?thesis
      unfolding ih(1) ih(2) using ih(3) True oo nn by auto
  next
    case False
    show ?thesis
    proof (cases "old < new")
      case True
      obtain rm' ad' where d: "diff_hosts olds (new # news) = (rm', ad')"
        by (cases "diff_hosts olds (new # news)")
      have r: "rm = old # rm'" "ad = ad'"
        using "3.prems"(3) False True d by simp_all
      from "3.IH"(1) [OF False True so "3.prems"(2) d]
      have ih: "set rm' = set olds - set (new # news)" "set ad' = set (new # news) - set olds"
        "distinct rm'"
        by simp_all
      have a: "old \<notin> set news" using n1 True by (metis less_asym)
      show ?thesis
        unfolding r using ih False oo a by auto
    next
      case gt: False
      then have lt: "new < old" using False by simp
      obtain rm' ad' where d: "diff_hosts (old # olds) news = (rm', ad')"
        by (cases "diff_hosts (old # olds) news")
      have r: "rm = rm'" "ad = new # ad'"
        using "3.prems"(3) False gt d by simp_all
      from "3.IH"(2) [OF False gt "3.prems"(1) sn d]
      have ih: "set rm' = set (old # olds) - set news" "set ad' = set news - set (old # olds)"
        "distinct rm'"
        by simp_all
      have a: "new \<notin> set olds" using o1 lt by (metis less_asym)
      show ?thesis
        unfolding r using ih False nn a by auto
    qed
  qed
qed

lemma remove_first_set:
  "distinct xs \<Longrightarrow> set (remove_first n xs) = set xs - {n}"
  "distinct xs \<Longrightarrow> distinct (remove_first n xs)"
  by (simp_all add: remove_first_remove1)

lemma VirtualHost_Add_services:
  "set (v_services (VirtualHost_Add v n)) = insert n (set (v_services v))"
  "distinct (v_services v) \<Longrightarrow> distinct (v_services (VirtualHost_Add v n))"
  "v_services (VirtualHost_Add v n) \<noteq> []"
  by (auto simp: VirtualHost_Add_def)

lemma VirtualHost_Add_idem:
  "VirtualHost_Add (VirtualHost_Add v n) n = VirtualHost_Add v n"
  by (simp add: VirtualHost_Add_def)

text \<open>The entry of a host after the loop that adds a service to a list of hosts.\<close>

lemma map_of_vhost_add:
  "map_of (vhost_add n a vhosts) h =
     (if h = a
      then Some (VirtualHost_Add
             (case map_of vhosts h of
                None \<Rightarrow> \<lparr>v_Name = h, v_services = [], v_last = 0\<rparr> | Some v \<Rightarrow> v) n)
      else map_of vhosts h)"
  by (auto simp: vhost_add_def update_conv' split: option.splits)

lemma distinct_vhost_add:
  "distinct (map fst vhosts) \<Longrightarrow> distinct (map fst (vhost_add n a vhosts))"
  by (simp add: vhost_add_def distinct_update split: option.splits)

lemma map_of_fold_vhost_add:
  "map_of (fold (vhost_add n) hs vhosts) h =
     (if h \<in> set hs
      then Some (VirtualHost_Add
             (case map_of vhosts h of
                None \<Rightarrow> \<lparr>v_Name = h, v_services = [], v_last = 0\<rparr> | Some v \<Rightarrow> v) n)
      else map_of vhosts h)"
proof (induction hs arbitrary: vhosts)
  case Nil
  then show ?case by simp
next
  case (Cons a hs)
  show ?case
    by (auto simp: Cons.IH map_of_vhost_add VirtualHost_Add_idem)
qed

lemma distinct_fold_vhost_add:
  "distinct (map fst vhosts) \<Longrightarrow> distinct (map fst (fold (vhost_add n) hs vhosts))"
  by (induction hs arbitrary: vhosts) (simp_all add: distinct_vhost_add)

text \<open>The entry of a host after the loop that removes a service from a list of hosts.\<close>

lemma map_of_vhost_remove:
  assumes "vhost_remove n a vhosts = Some vhosts'"
  shows "map_of vhosts' h = (if h = a then removed_entry n (map_of vhosts h) else map_of vhosts h)"
  using assms
  by (auto simp: vhost_remove_def removed_entry_def VirtualHost_Len_def Let_def update_conv'
        delete_conv' split: option.splits if_splits)

lemma distinct_vhost_remove:
  assumes "vhost_remove n a vhosts = Some vhosts'" "distinct (map fst vhosts)"
  shows "distinct (map fst vhosts')"
  using assms
  by (auto simp: vhost_remove_def Let_def distinct_update distinct_delete
        split: option.splits if_splits)

lemma map_of_vhost_remove_all:
  assumes "vhost_remove_all n hs vhosts = Some vhosts'" "distinct hs"
  shows "map_of vhosts' h
           = (if h \<in> set hs then removed_entry n (map_of vhosts h) else map_of vhosts h)"
  using assms
proof (induction hs arbitrary: vhosts)
  case Nil
  then show ?case by simp
next
  case (Cons a hs)
  then obtain vhosts1 where 1: "vhost_remove n a vhosts = Some vhosts1"
    and 2: "vhost_remove_all n hs vhosts1 = Some vhosts'"
    by (auto split: option.splits)
  have "map_of vhosts' h
          = (if h \<in> set hs then removed_entry n (map_of vhosts1 h) else map_of vhosts1 h)"
    using Cons.IH [OF 2] Cons.prems(2) by simp
  then show ?case
    using map_of_vhost_remove [OF 1, of h] Cons.prems(2) by auto
qed

lemma distinct_vhost_remove_all:
  assumes "vhost_remove_all n hs vhosts = Some vhosts'" "distinct (map fst vhosts)"
  shows "distinct (map fst vhosts')"
  using assms
proof (induction hs arbitrary: vhosts)
  case Nil
  then show ?case by simp
next
  case (Cons a hs)
  then obtain vhosts1 where 1: "vhost_remove n a vhosts = Some vhosts1"
    and 2: "vhost_remove_all n hs vhosts1 = Some vhosts'"
    by (auto split: option.splits)
  show ?case
    using Cons.IH [OF 2] distinct_vhost_remove [OF 1] Cons.prems(2) by simp
qed

lemma listing_update:
  "listing (AList.update name svc' svcs) h
     = (listing svcs h - {name})
       \<union> (if h \<in> set (slice (s_VirtualHosts svc')) then {name} else {})"
  by (auto simp: listing_def update_conv')

lemma listing_delete: "listing (AList.delete name svcs) h = listing svcs h - {name}"
  by (auto simp: listing_def delete_conv')

lemma listing_member:
  "name \<in> listing svcs h
     \<longleftrightarrow> h \<in> (case map_of svcs name of
                None \<Rightarrow> {} | Some s \<Rightarrow> set (slice (s_VirtualHosts s)))"
  by (auto simp: listing_def split: option.splits)

lemma vhost_ok_after_remove:
  assumes ok: "vhost_ok svcs entry h" and l: "listing svcs' h = listing svcs h - {name}"
  shows "vhost_ok svcs' (removed_entry name entry) h"
proof (cases entry)
  case None
  then show ?thesis
    using ok l by (simp add: vhost_ok_def removed_entry_def)
next
  case (Some v)
  then have v: "distinct (v_services v)" "set (v_services v) = listing svcs h"
    using ok by (simp_all add: vhost_ok_def)
  let ?v' = "VirtualHost_Remove v name"
  have s: "set (v_services ?v') = listing svcs' h" "distinct (v_services ?v')"
    using v l by (simp_all add: VirtualHost_Remove_def remove_first_set)
  show ?thesis
  proof (cases "v_services ?v' = []")
    case True
    then have "listing svcs' h = {}" using s(1) by simp
    then show ?thesis
      using Some True by (simp add: vhost_ok_def removed_entry_def)
  next
    case False
    then show ?thesis
      using Some s by (simp add: vhost_ok_def removed_entry_def)
  qed
qed

lemma vhost_ok_after_add:
  assumes ok: "vhost_ok svcs entry h" and l: "listing svcs' h = insert name (listing svcs h)"
  shows "vhost_ok svcs'
           (Some (VirtualHost_Add
              (case entry of
                 None \<Rightarrow> \<lparr>v_Name = h, v_services = [], v_last = 0\<rparr> | Some v \<Rightarrow> v) name)) h"
proof (cases entry)
  case None
  then have "listing svcs h = {}" using ok by (simp add: vhost_ok_def)
  then show ?thesis
    using None l by (simp add: vhost_ok_def VirtualHost_Add_def)
next
  case (Some v)
  then have v: "distinct (v_services v)" "set (v_services v) = listing svcs h"
    using ok by (simp_all add: vhost_ok_def)
  show ?thesis
    using Some v l by (simp add: vhost_ok_def VirtualHost_Add_services)
qed

lemma vhost_ok_same:
  assumes "vhost_ok svcs entry h" "listing svcs' h = listing svcs h"
  shows "vhost_ok svcs' entry h"
  using assms by (simp add: vhost_ok_def split: option.splits)

text \<open>
  A service is stored (anew or again) under its name with a clean list of hosts, it is
  removed from the entries of the hosts it lists no more and added to those of the
  hosts it lists from now on: the invariant is kept.
\<close>

lemma rewire:
  assumes inv: "vhosts_inv env r"
    and A: "A = (case map_of (r_svcs r) name of
                   None \<Rightarrow> {} | Some s \<Rightarrow> set (slice (s_VirtualHosts s)))"
    and nm: "s_Name svc' = name" and cl: "clean_hosts env (s_VirtualHosts svc')"
    and N: "N = set (slice (s_VirtualHosts svc'))"
    and rm: "set rm = A - N" "distinct rm"
    and ad: "set ad = N - A"
    and rem: "vhost_remove_all name rm (r_vhosts r) = Some vhosts1"
  shows "vhosts_inv env
           (r\<lparr>r_svcs := AList.update name svc' (r_svcs r),
              r_vhosts := fold (vhost_add name) ad vhosts1\<rparr>)"
proof -
  let ?svcs = "r_svcs r"
  let ?svcs' = "AList.update name svc' (r_svcs r)"
  let ?vh' = "fold (vhost_add name) ad vhosts1"
  have d1: "distinct (map fst ?svcs')"
    using inv by (simp add: vhosts_inv_def distinct_update)
  have d2: "distinct (map fst ?vh')"
    using inv distinct_vhost_remove_all [OF rem]
    by (simp add: vhosts_inv_def distinct_fold_vhost_add)
  have s: "s_Name s = n \<and> clean_hosts env (s_VirtualHosts s)"
    if "map_of ?svcs' n = Some s" for n s
    using that inv nm cl by (auto simp: vhosts_inv_def update_conv' split: if_splits)
  have L: "listing ?svcs' h = (listing ?svcs h - {name}) \<union> (if h \<in> N then {name} else {})"
    for h
    by (simp add: listing_update N)
  have M: "name \<in> listing ?svcs h \<longleftrightarrow> h \<in> A" for h
    by (simp add: listing_member A)
  have ok: "vhost_ok ?svcs' (map_of ?vh' h) h" for h
  proof -
    have old: "vhost_ok ?svcs (map_of (r_vhosts r) h) h"
      using inv by (simp add: vhosts_inv_def)
    have m1: "map_of vhosts1 h
        = (if h \<in> set rm then removed_entry name (map_of (r_vhosts r) h)
           else map_of (r_vhosts r) h)"
      by (rule map_of_vhost_remove_all [OF rem rm(2)])
    have m2: "map_of ?vh' h =
       (if h \<in> set ad
        then Some (VirtualHost_Add
               (case map_of vhosts1 h of
                  None \<Rightarrow> \<lparr>v_Name = h, v_services = [], v_last = 0\<rparr> | Some v \<Rightarrow> v) name)
        else map_of vhosts1 h)"
      by (rule map_of_fold_vhost_add)
    consider (rm) "h \<in> set rm" | (ad) "h \<in> set ad" | (keep) "h \<notin> set rm" "h \<notin> set ad"
      by blast
    then show ?thesis
    proof cases
      case rm
      then have h: "h \<in> A" "h \<notin> N" using \<open>set rm = A - N\<close> by auto
      then have "h \<notin> set ad" using ad by simp
      then have e: "map_of ?vh' h = removed_entry name (map_of (r_vhosts r) h)"
        using m1 m2 rm by simp
      have "listing ?svcs' h = listing ?svcs h - {name}"
        using L [of h] h by simp
      then show ?thesis
        unfolding e by (rule vhost_ok_after_remove [OF old])
    next
      case ad
      then have h: "h \<in> N" "h \<notin> A" using \<open>set ad = N - A\<close> by auto
      then have "h \<notin> set rm" using \<open>set rm = A - N\<close> by simp
      then have e: "map_of ?vh' h =
         Some (VirtualHost_Add
               (case map_of (r_vhosts r) h of
                  None \<Rightarrow> \<lparr>v_Name = h, v_services = [], v_last = 0\<rparr> | Some v \<Rightarrow> v) name)"
        using m1 m2 ad by simp
      have "listing ?svcs' h = insert name (listing ?svcs h)"
        using L [of h] h M [of h] by auto
      then show ?thesis
        unfolding e by (rule vhost_ok_after_add [OF old])
    next
      case keep
      then have e: "map_of ?vh' h = map_of (r_vhosts r) h"
        using m1 m2 by simp
      have "h \<in> A \<longleftrightarrow> h \<in> N"
        using keep \<open>set rm = A - N\<close> \<open>set ad = N - A\<close> by blast
      then have "listing ?svcs' h = listing ?svcs h"
        using L [of h] M [of h] by auto
      then show ?thesis
        unfolding e by (rule vhost_ok_same [OF old])
    qed
  qed
  show ?thesis
    unfolding vhosts_inv_def using d1 d2 s ok by simp
qed

lemma add_frame:
  "add s b = Some s' \<Longrightarrow> s_Name s' = s_Name s \<and> s_VirtualHosts s' = s_VirtualHosts s"
  by (auto simp: add_def Let_def split: if_splits option.splits)

lemma remove_frame:
  "s_Name (snd (remove s n)) = s_Name s"
  "s_VirtualHosts (snd (remove s n)) = s_VirtualHosts s"
  by (simp_all add: remove_def split: option.splits)

lemma add_all_frame:
  "add_all s bs = Some s' \<Longrightarrow> s_Name s' = s_Name s \<and> s_VirtualHosts s' = s_VirtualHosts s"
proof (induction bs arbitrary: s)
  case Nil
  then show ?case by simp
next
  case (Cons b bs)
  then obtain s1 where 1: "add s (NewBackend b) = Some s1" and 2: "add_all s1 bs = Some s'"
    by (auto split: option.splits)
  show ?case
    using Cons.IH [OF 2] add_frame [OF 1] by simp
qed

lemma NewService_frame:
  assumes "NewService cfg = Some s"
  shows "s_Name s = sc_Name cfg \<and> s_VirtualHosts s = sc_VirtualHosts cfg"
  using add_all_frame [OF assms [unfolded NewService_def Let_def]] by simp

lemma start_frame:
  "start env s = Inr s' \<Longrightarrow> s_Name s' = s_Name s \<and> s_VirtualHosts s' = s_VirtualHosts s"
  by (auto simp: start_def split: if_splits option.splits)

lemma Service_UpdateConfig_frame:
  "Service_UpdateConfig s c = Inr s'
     \<Longrightarrow> s_Name s' = s_Name s \<and> s_VirtualHosts s' = s_VirtualHosts s"
  by (auto simp: Service_UpdateConfig_def Let_def split: if_splits)

lemma update_backends_frame:
  "update_backends s cur new = Some (s', left)
     \<Longrightarrow> s_Name s' = s_Name s \<and> s_VirtualHosts s' = s_VirtualHosts s"
proof (induction s cur new rule: update_backends.induct)
  case (1 service currentBackends)
  then show ?case by simp
next
  case (2 service currentBackends newBackend rest)
  let ?removed = "snd (remove service (bc_Name newBackend))"
  show ?case
  proof (cases "\<exists>current. map_of currentBackends (bc_Name newBackend) = Some current
                  \<and> BackendConfig_Equal current newBackend")
    case True
    then obtain current where c: "map_of currentBackends (bc_Name newBackend) = Some current"
      "BackendConfig_Equal current newBackend"
      by blast
    with "2.prems" have "update_backends service
        (AList.delete (bc_Name current) currentBackends) rest = Some (s', left)"
      by simp
    from "2.IH"(2) [OF c this] show ?thesis .
  next
    case False
    then obtain service' where a: "add ?removed (NewBackend newBackend) = Some service'"
      and u: "update_backends service'
                (AList.delete (bc_Name newBackend) currentBackends) rest = Some (s', left)"
      using "2.prems" by (auto split: option.splits if_splits)
    have f: "s_Name service' = s_Name service"
      "s_VirtualHosts service' = s_VirtualHosts service"
      using add_frame [OF a] by (simp_all add: remove_frame)
    show ?thesis
    proof (cases "map_of currentBackends (bc_Name newBackend)")
      case None
      from "2.IH"(1) [OF None a u] f show ?thesis by simp
    next
      case (Some current)
      then have "\<not> BackendConfig_Equal current newBackend" using False by simp
      from "2.IH"(3) [OF Some this a u] f show ?thesis by simp
    qed
  qed
qed

lemma remove_leftover_frame:
  "s_Name (remove_leftover env s left) = s_Name s"
  "s_VirtualHosts (remove_leftover env s left) = s_VirtualHosts s"
proof -
  have "s_Name (fold (\<lambda>name s. snd (remove s name)) ns s) = s_Name s
        \<and> s_VirtualHosts (fold (\<lambda>name s. snd (remove s name)) ns s) = s_VirtualHosts s"
    for ns
    by (induction ns arbitrary: s) (simp_all add: remove_frame)
  then show "s_Name (remove_leftover env s left) = s_Name s"
    "s_VirtualHosts (remove_leftover env s left) = s_VirtualHosts s"
    by (simp_all add: remove_leftover_def)
qed

lemma defaults_frame:
  "sc_Name (ServiceConfig_SetDefaults (setServiceDefaults r cfg)) = sc_Name cfg"
  "sc_VirtualHosts (ServiceConfig_SetDefaults (setServiceDefaults r cfg)) = sc_VirtualHosts cfg"
  by (simp_all add: ServiceConfig_SetDefaults_def setServiceDefaults_def Let_def
        split del: if_split)

lemma vhosts_inv_init: "vhosts_inv env Registry_init"
  by (simp add: vhosts_inv_def Registry_init_def vhost_ok_def listing_def)

lemma vhosts_inv_globals: "vhosts_inv env r \<Longrightarrow> vhosts_inv env (r\<lparr>r_cfg := c\<rparr>)"
  by (simp add: vhosts_inv_def)

text \<open>Storing a service again with the name and the hosts it had keeps the invariant.\<close>

lemma vhosts_inv_restore:
  assumes inv: "vhosts_inv env r" and m: "map_of (r_svcs r) name = Some svc"
    and f: "s_Name svc' = s_Name svc"
           "set (slice (s_VirtualHosts svc')) = set (slice (s_VirtualHosts svc))"
           "clean_hosts env (s_VirtualHosts svc')"
  shows "vhosts_inv env (r\<lparr>r_svcs := AList.update name svc' (r_svcs r)\<rparr>)"
proof -
  have n: "s_Name svc = name" using inv m by (simp add: vhosts_inv_def)
  have "vhosts_inv env (r\<lparr>r_svcs := AList.update name svc' (r_svcs r),
                           r_vhosts := fold (vhost_add name) [] (r_vhosts r)\<rparr>)"
    by (rule rewire [OF inv _ _ f(3), where A = "set (slice (s_VirtualHosts svc))"
          and N = "set (slice (s_VirtualHosts svc'))" and rm = "[]"])
       (simp_all add: m f n)
  then show ?thesis by simp
qed

lemma AddService_inv:
  assumes inv: "vhosts_inv env r" and cl: "clean_hosts env (sc_VirtualHosts cfg)"
    and run: "AddService env r cfg = Some (err, r')"
  shows "vhosts_inv env r'"
proof (cases "map_of (r_svcs r) (sc_Name cfg) \<noteq> None")
  case True
  then show ?thesis using run inv by (simp add: AddService_def)
next
  case new: False
  let ?c = "ServiceConfig_SetDefaults (setServiceDefaults r cfg)"
  obtain service0 where n: "NewService ?c = Some service0"
    using run new by (auto simp: AddService_def Let_def split: option.splits)
  show ?thesis
  proof (cases "start env service0")
    case (Inl e)
    then show ?thesis using run new n inv by (simp add: AddService_def Let_def)
  next
    case (Inr service1)
    let ?service = "service1\<lparr>s_VirtualHosts := sc_VirtualHosts cfg\<rparr>"
    have nm: "s_Name service1 = sc_Name cfg"
      using NewService_frame [OF n] start_frame [OF Inr] by (simp add: defaults_frame)
    have r': "r' = r\<lparr>r_svcs := AList.update (sc_Name cfg) ?service (r_svcs r),
                     r_vhosts := fold (vhost_add (sc_Name cfg)) (slice (sc_VirtualHosts cfg))
                                   (r_vhosts r)\<rparr>"
      using run new n Inr nm
      by (simp add: AddService_def Let_def defaults_frame filterEmpty_clean [OF cl])
    show ?thesis
      unfolding r'
      by (rule rewire [OF inv, where A = "{}" and N = "set (slice (sc_VirtualHosts cfg))"
            and rm = "[]"])
         (use new nm cl in simp_all)
  qed
qed

lemma sorted_clean:
  assumes "clean_hosts env hosts"
  shows "sorted_wrt (<) (sort (slice hosts))"
  using assms by (simp add: clean_hosts_def strict_sorted_iff)

lemma updateVHosts_inv:
  assumes inv: "vhosts_inv env r" and m: "map_of (r_svcs r) name = Some svc"
    and s6: "s_Name s6 = name" "clean_hosts env (s_VirtualHosts s6)"
            "set (slice (s_VirtualHosts s6)) = set (slice (s_VirtualHosts svc))"
    and new: "clean_hosts env newHosts"
    and sh: "shared \<Longrightarrow> newHosts = s_VirtualHosts s6"
    and run: "updateVHosts shared (r_vhosts r) s6 newHosts = Some (vhosts', s7)"
  shows "vhosts_inv env (r\<lparr>r_svcs := AList.update name s7 (r_svcs r), r_vhosts := vhosts'\<rparr>)"
proof -
  let ?old = "sort (slice (s_VirtualHosts s6))"
  let ?new = "map_option sort newHosts"
  have n: "(if shared then map_option (\<lambda>hs. take (length hs) ?old) newHosts
            else map_option sort newHosts) = ?new"
  proof (cases shared)
    case True
    then have e: "s_VirtualHosts s6 = newHosts" using sh by simp
    show ?thesis
      unfolding e using True by (cases newHosts) (simp_all add: slice_def)
  next
    case False
    then show ?thesis by simp
  qed
  have sl: "slice ?new = sort (slice newHosts)"
    by (cases newHosts) (simp_all add: slice_def)
  obtain rm ad where d: "diff_hosts ?old (slice ?new) = (rm, ad)"
    by (cases "diff_hosts ?old (slice ?new)")
  obtain vhosts1 where rem: "vhost_remove_all name rm (r_vhosts r) = Some vhosts1"
    and v': "vhosts' = fold (vhost_add name) ad vhosts1"
    and s7: "s7 = s6\<lparr>s_VirtualHosts := ?new\<rparr>"
    using run d s6(1)
    by (auto simp: updateVHosts_def Let_def n split: option.splits)
  have sets: "set rm = set ?old - set (slice ?new)" "set ad = set (slice ?new) - set ?old"
    "distinct rm"
    using diff_hosts_sets [OF sorted_clean [OF s6(2)] _ d] sorted_clean [OF new]
    by (simp_all add: sl)
  show ?thesis
    unfolding v'
    by (rule rewire [OF inv, where A = "set (slice (s_VirtualHosts svc))"
          and N = "set (slice ?new)" and rm = rm])
       (use m s6 s7 sets rem clean_hosts_sort [OF new] in simp_all)
qed

lemma Merge_hosts:
  "sc_VirtualHosts (Merge cur cfg)
     = (if sc_VirtualHosts cfg \<noteq> None then sc_VirtualHosts cfg else sc_VirtualHosts cur)"
  by (simp add: Merge_def)

lemma UpdateService_inv:
  assumes inv: "vhosts_inv env r" and cl: "clean_hosts env (sc_VirtualHosts cfg)"
    and run: "UpdateService env r cfg = Some (err, r')"
  shows "vhosts_inv env r'"
proof (cases "map_of (r_svcs r) (sc_Name cfg)")
  case None
  then show ?thesis using run inv by (simp add: UpdateService_def)
next
  case (Some service)
  define currentCfg where "currentCfg = config service"
  define newCfg where "newCfg = Merge currentCfg cfg"
  have sv: "s_Name service = sc_Name cfg" "clean_hosts env (s_VirtualHosts service)"
    using inv Some by (simp_all add: vhosts_inv_def)
  show ?thesis
  proof (cases "Service_UpdateConfig service newCfg")
    case (Inl e)
    then show ?thesis
      using run inv Some by (simp add: UpdateService_def Let_def currentCfg_def newCfg_def)
  next
    case (Inr service1)
    define cur where
      "cur = fold (\<lambda>b. AList.update (bc_Name b) b) (slice (sc_Backends currentCfg)) []"
    show ?thesis
    proof (cases "update_backends service1 cur (slice (sc_Backends newCfg))")
      case None
      then show ?thesis
        using run Some Inr
        by (simp add: UpdateService_def Let_def currentCfg_def newCfg_def cur_def)
    next
      case ub: (Some p)
      obtain service2 leftover where p: "p = (service2, leftover)" by (cases p)
      define service3 where "service3 = remove_leftover env service2 leftover"
      define shared where "shared = (sc_VirtualHosts cfg = None)"
      define sorted where "sorted = map_option sort (s_VirtualHosts service3)"
      define service4 where "service4 = service3\<lparr>s_VirtualHosts := sorted\<rparr>"
      define newCfg1 where
        "newCfg1 = (if shared then newCfg\<lparr>sc_VirtualHosts := sorted\<rparr> else newCfg)"
      define service5 where
        "service5 = (if s_errPagesCfg service4 \<noteq> sc_ErrorPages newCfg1
                     then service4\<lparr>s_errPagesCfg := sc_ErrorPages newCfg1\<rparr> else service4)"
      define newHosts where
        "newHosts = map_option (filterEmpty (blank env)) (sc_VirtualHosts newCfg1)"
      define service6 where
        "service6 = (if shared
                     then service5\<lparr>s_VirtualHosts :=
                            map_option (filterEmpty_arr (blank env)) sorted\<rparr>
                     else service5)"
      have f3: "s_Name service3 = sc_Name cfg"
        "s_VirtualHosts service3 = s_VirtualHosts service"
        using Service_UpdateConfig_frame [OF Inr] update_backends_frame [OF ub [unfolded p]] sv
        by (simp_all add: service3_def remove_leftover_frame)
      have cs: "clean_hosts env sorted"
        using sv(2) f3 by (simp add: sorted_def clean_hosts_sort)
      have ss: "set (slice sorted) = set (slice (s_VirtualHosts service))"
        using f3 by (simp add: sorted_def slice_sort)
      have eq: "UpdateService env r cfg =
        (if ServiceConfig_Equal currentCfg newCfg1
         then Some (None, r\<lparr>r_svcs := AList.update (sc_Name cfg) service4 (r_svcs r)\<rparr>)
         else (case updateVHosts shared (r_vhosts r) service6 newHosts of
                 None \<Rightarrow> None
               | Some (vhosts', service7) \<Rightarrow>
                   Some (None, r\<lparr>r_svcs := AList.update (sc_Name cfg) service7 (r_svcs r),
                                  r_vhosts := vhosts'\<rparr>)))"
        unfolding UpdateService_def Let_def
        using Some Inr ub p
        by (simp add: currentCfg_def newCfg_def cur_def service3_def shared_def sorted_def
              service4_def newCfg1_def service5_def newHosts_def service6_def
              split del: if_split cong: if_cong)
      show ?thesis
      proof (cases "ServiceConfig_Equal currentCfg newCfg1")
        case True
        then have r': "r' = r\<lparr>r_svcs := AList.update (sc_Name cfg) service4 (r_svcs r)\<rparr>"
          using run eq by simp
        show ?thesis
          unfolding r'
          by (rule vhosts_inv_restore [OF inv Some])
             (use f3 sv cs ss in \<open>simp_all add: service4_def\<close>)
      next
        case False
        then obtain vhosts' service7 where
          u: "updateVHosts shared (r_vhosts r) service6 newHosts = Some (vhosts', service7)"
          and r': "r' = r\<lparr>r_svcs := AList.update (sc_Name cfg) service7 (r_svcs r),
                           r_vhosts := vhosts'\<rparr>"
          using run eq by (auto split: option.splits)
        have h6: "s_VirtualHosts service6 = sorted"
          using cs by (simp add: service6_def service5_def service4_def filterEmpty_clean)
        have n6: "s_Name service6 = sc_Name cfg"
          using f3 by (simp add: service6_def service5_def service4_def)
        have v1: "sc_VirtualHosts newCfg1 = (if shared then sorted else sc_VirtualHosts cfg)"
          by (auto simp: newCfg1_def newCfg_def Merge_hosts shared_def)
        have cn: "clean_hosts env (sc_VirtualHosts newCfg1)"
          using v1 cs cl by simp
        have nh: "newHosts = sc_VirtualHosts newCfg1"
          using cn by (simp add: newHosts_def filterEmpty_clean)
        show ?thesis
          unfolding r'
          by (rule updateVHosts_inv [OF inv Some n6 _ _ _ _ u])
             (use h6 cs ss cn nh v1 in simp_all)
      qed
    qed
  qed
qed

lemma map_of_map_filter_entries:
  "map_of (List.map_filter (\<lambda>(h, v). if P h then Some (h, g v) else None) al) k
     = (case map_of al k of None \<Rightarrow> None | Some v \<Rightarrow> if P k then Some (g v) else None)"
  by (induction al) (auto simp: List.map_filter_simps split: option.splits if_splits)

lemma keys_map_filter_entries:
  "map fst (List.map_filter (\<lambda>(h, v). if P h then Some (h, g v) else None) al)
     = filter P (map fst al)"
  by (induction al) (auto simp: List.map_filter_simps)

lemma list_ex_listing:
  assumes "distinct (map fst svcs)"
  shows "list_ex (\<lambda>(n, service). h \<in> set (slice (s_VirtualHosts service))) svcs
           \<longleftrightarrow> listing svcs h \<noteq> {}"
proof
  assume "list_ex (\<lambda>(n, service). h \<in> set (slice (s_VirtualHosts service))) svcs"
  then obtain n s where "(n, s) \<in> set svcs" "h \<in> set (slice (s_VirtualHosts s))"
    by (auto simp: list_ex_iff)
  then have "n \<in> listing svcs h"
    using assms by (auto simp: listing_def)
  then show "listing svcs h \<noteq> {}" by blast
next
  assume "listing svcs h \<noteq> {}"
  then obtain n s where "map_of svcs n = Some s" "h \<in> set (slice (s_VirtualHosts s))"
    by (auto simp: listing_def)
  then show "list_ex (\<lambda>(n, service). h \<in> set (slice (s_VirtualHosts service))) svcs"
    by (auto simp: list_ex_iff dest: map_of_SomeD)
qed

lemma RemoveService_inv:
  assumes inv: "vhosts_inv env r" and run: "RemoveService r name = (err, r')"
  shows "vhosts_inv env r'"
proof (cases "map_of (r_svcs r) name")
  case None
  then show ?thesis using run inv by (simp add: RemoveService_def)
next
  case (Some svc)
  let ?svcs' = "AList.delete name (r_svcs r)"
  let ?P = "\<lambda>h. list_ex (\<lambda>(n, service). h \<in> set (slice (s_VirtualHosts service))) ?svcs'"
  let ?vh' = "List.map_filter
     (\<lambda>(host, vhost). if ?P host then Some (host, VirtualHost_Remove vhost (s_Name svc))
                       else None) (r_vhosts r)"
  have r': "r' = r\<lparr>r_svcs := ?svcs', r_vhosts := ?vh'\<rparr>"
    using run Some by (simp add: RemoveService_def Let_def)
  have nm: "s_Name svc = name" using inv Some by (simp add: vhosts_inv_def)
  have d1: "distinct (map fst ?svcs')"
    using inv by (simp add: vhosts_inv_def distinct_delete)
  have d2: "distinct (map fst ?vh')"
    using inv by (simp add: vhosts_inv_def keys_map_filter_entries)
  have s: "s_Name s = n \<and> clean_hosts env (s_VirtualHosts s)"
    if "map_of ?svcs' n = Some s" for n s
    using that inv by (auto simp: vhosts_inv_def delete_conv' split: if_splits)
  have ok: "vhost_ok ?svcs' (map_of ?vh' h) h" for h
  proof -
    have old: "vhost_ok (r_svcs r) (map_of (r_vhosts r) h) h"
      using inv by (simp add: vhosts_inv_def)
    have l: "listing ?svcs' h = listing (r_svcs r) h - {name}"
      by (rule listing_delete)
    have P: "?P h \<longleftrightarrow> listing ?svcs' h \<noteq> {}"
      by (rule list_ex_listing [OF d1])
    have e: "map_of ?vh' h = removed_entry name (map_of (r_vhosts r) h)"
    proof (cases "map_of (r_vhosts r) h")
      case None
      then show ?thesis
        by (simp add: map_of_map_filter_entries removed_entry_def)
    next
      case (Some v)
      then have v: "distinct (v_services v)" "set (v_services v) = listing (r_svcs r) h"
        using old by (simp_all add: vhost_ok_def)
      have "set (v_services (VirtualHost_Remove v name)) = listing ?svcs' h"
        using v l by (simp add: VirtualHost_Remove_def remove_first_set)
      then have "v_services (VirtualHost_Remove v name) = [] \<longleftrightarrow> \<not> ?P h"
        unfolding P by auto
      then show ?thesis
        using Some nm by (simp add: map_of_map_filter_entries removed_entry_def)
    qed
    show ?thesis
      unfolding e by (rule vhost_ok_after_remove [OF old l])
  qed
  show ?thesis
    unfolding r' vhosts_inv_def using d1 d2 s ok by simp
qed

lemma AddBackend_inv:
  assumes inv: "vhosts_inv env r" and run: "AddBackend r name b = Some (err, r')"
  shows "vhosts_inv env r'"
proof (cases "map_of (r_svcs r) name")
  case None
  then show ?thesis using run inv by (simp add: AddBackend_def)
next
  case (Some service)
  then obtain service' where a: "add service (NewBackend b) = Some service'"
    and r': "r' = r\<lparr>r_svcs := AList.update name service' (r_svcs r)\<rparr>"
    using run by (auto simp: AddBackend_def split: option.splits)
  have "clean_hosts env (s_VirtualHosts service)"
    using inv Some by (simp add: vhosts_inv_def)
  then show ?thesis
    unfolding r' using add_frame [OF a]
    by (intro vhosts_inv_restore [OF inv Some]) simp_all
qed

lemma RemoveBackend_inv:
  assumes inv: "vhosts_inv env r" and run: "RemoveBackend r name b = (err, r')"
  shows "vhosts_inv env r'"
proof (cases "map_of (r_svcs r) name")
  case None
  then show ?thesis using run inv by (simp add: RemoveBackend_def)
next
  case (Some service)
  have c: "clean_hosts env (s_VirtualHosts service)"
    using inv Some by (simp add: vhosts_inv_def)
  show ?thesis
  proof (cases "fst (remove service b)")
    case False
    then show ?thesis
      using run inv Some by (simp add: RemoveBackend_def split: prod.splits)
  next
    case True
    then have r': "r' = r\<lparr>r_svcs := AList.update name (snd (remove service b)) (r_svcs r)\<rparr>"
      using run Some by (auto simp: RemoveBackend_def split: prod.splits)
    show ?thesis
      unfolding r' using c
      by (intro vhosts_inv_restore [OF inv Some]) (simp_all add: remove_frame)
  qed
qed

lemma VirtualHost_Service_services:
  "VirtualHost_Service svcs v = Some (x, v') \<Longrightarrow> v_services v' = v_services v"
  by (auto simp: VirtualHost_Service_def split: if_splits option.splits)

lemma GetVHostService_inv:
  assumes inv: "vhosts_inv env r" and run: "GetVHostService r host = Some (svc, r')"
  shows "vhosts_inv env r'"
proof (cases "map_of (r_vhosts r) host")
  case None
  then show ?thesis using run inv by (simp add: GetVHostService_def)
next
  case (Some vhost)
  then obtain vhost' where s: "VirtualHost_Service (r_svcs r) vhost = Some (svc, vhost')"
    and r': "r' = r\<lparr>r_vhosts := AList.update host vhost' (r_vhosts r)\<rparr>"
    using run by (auto simp: GetVHostService_def split: option.splits)
  have e: "v_services vhost' = v_services vhost"
    by (rule VirtualHost_Service_services [OF s])
  have "vhost_ok (r_svcs r) (map_of (AList.update host vhost' (r_vhosts r)) h) h" for h
  proof (cases "h = host")
    case True
    have "vhost_ok (r_svcs r) (Some vhost) host"
      using inv Some by (simp add: vhosts_inv_def flip: Some)
    then show ?thesis
      using True e by (simp add: update_conv' vhost_ok_def)
  next
    case False
    then show ?thesis
      using inv by (simp add: update_conv' vhosts_inv_def)
  qed
  then show ?thesis
    unfolding r' using inv by (simp add: vhosts_inv_def distinct_update)
qed

lemma reachable_inv: "reachable env r \<Longrightarrow> vhosts_inv env r"
proof (induction rule: reachable.induct)
  case reach_init
  show ?case by (rule vhosts_inv_init)
next
  case (reach_globals r c)
  then show ?case by (simp add: vhosts_inv_globals)
next
  case (reach_AddService r cfg err r')
  then show ?case using AddService_inv by blast
next
  case (reach_UpdateService r cfg visit err r')
  have "vhosts_inv (env\<lparr>range_order := visit\<rparr>) r"
    using reach_UpdateService.IH by (simp add: vhosts_inv_def clean_hosts_def)
  moreover have "clean_hosts (env\<lparr>range_order := visit\<rparr>) (sc_VirtualHosts cfg)"
    using reach_UpdateService.hyps(2) by (simp add: clean_hosts_def)
  ultimately have "vhosts_inv (env\<lparr>range_order := visit\<rparr>) r'"
    using reach_UpdateService.hyps(3) by (rule UpdateService_inv)
  then show ?case by (simp add: vhosts_inv_def clean_hosts_def)
next
  case (reach_RemoveService r name err r')
  then show ?case using RemoveService_inv by blast
next
  case (reach_AddBackend r name b err r')
  then show ?case using AddBackend_inv by blast
next
  case (reach_RemoveBackend r name b err r')
  then show ?case using RemoveBackend_inv by blast
next
  case (reach_GetVHostService r host svc r')
  then show ?case using GetVHostService_inv by blast
qed

text \<open>
  \<open>UpdateConfig\<close> is a change of the global defaults followed by calls of \<open>AddService\<close>
  and \<open>UpdateService\<close>, so it stays within the reachable states.
\<close>

lemma UpdateConfig_services_reachable:
  assumes "reachable env r"
    and "\<forall>svc \<in> set svcs. clean_hosts env (sc_VirtualHosts svc)"
    and "UpdateConfig_services env r errors svcs = Some (errors', r')"
  shows "reachable env r'"
  using assms
proof (induction svcs arbitrary: r errors)
  case Nil
  then show ?case by simp
next
  case (Cons svc rest)
  have c: "clean_hosts env (sc_VirtualHosts svc)"
    and cr: "\<forall>svc \<in> set rest. clean_hosts env (sc_VirtualHosts svc)"
    using Cons.prems(2) by simp_all
  let ?errors1 = "errors @ map (ErrPortConflict (sc_Name svc))
                             (filter (HasSuffix (sc_Addr svc)) (invalidPorts env))"
  show ?case
  proof (cases "GetService r (sc_Name svc) = None")
    case True
    then obtain err r1 errors2 where a: "AddService env r svc = Some (err, r1)"
      and u: "UpdateConfig_services env r1 errors2 rest = Some (errors', r')"
      using Cons.prems(3)
      by (auto simp: Let_def split: option.splits)
    have "reachable env r1"
      by (rule reach_AddService [OF Cons.prems(1) c a])
    from Cons.IH [OF this cr u] show ?thesis .
  next
    case False
    then obtain err r1 errors2 where a: "UpdateService env r svc = Some (err, r1)"
      and u: "UpdateConfig_services env r1 errors2 rest = Some (errors', r')"
      using Cons.prems(3)
      by (auto simp: Let_def split: option.splits)
    have "reachable env r1"
      by (rule reach_UpdateService [OF Cons.prems(1) c, of "range_order env"]) (simp add: a)
    from Cons.IH [OF this cr u] show ?thesis .
  qed
qed

lemma UpdateConfig_reachable:
  assumes "reachable env r"
    and "\<forall>svc \<in> set (g_Services cfg). clean_hosts env (sc_VirtualHosts svc)"
    and "UpdateConfig env r cfg = Some (errors, r')"
  shows "reachable env r'"
proof -
  obtain errors' where
    "UpdateConfig_services env (r\<lparr>r_cfg := set_globals env (r_cfg r) cfg\<rparr>) []
       (g_Services cfg) = Some (errors', r')"
    using assms(3) by (auto simp: UpdateConfig_def split: option.splits)
  then show ?thesis
    using UpdateConfig_services_reachable [OF reach_globals [OF assms(1)] assms(2)] by blast
qed

lemma vhosts_inv_keys:
  assumes "vhosts_inv env r"
  shows "vhost_keys r = listed_hosts r"
proof -
  have ok: "vhost_ok (r_svcs r) (map_of (r_vhosts r) h) h" for h
    using assms by (simp add: vhosts_inv_def)
  have d: "distinct (map fst (r_svcs r))"
    using assms by (simp add: vhosts_inv_def)
  have k: "h \<in> vhost_keys r \<longleftrightarrow> map_of (r_vhosts r) h \<noteq> None" for h
    by (simp add: vhost_keys_def map_of_eq_None_iff)
  have l: "h \<in> listed_hosts r \<longleftrightarrow> listing (r_svcs r) h \<noteq> {}" for h
  proof
    assume "h \<in> listed_hosts r"
    then obtain n s where "(n, s) \<in> set (r_svcs r)" "h \<in> set (slice (s_VirtualHosts s))"
      by (auto simp: listed_hosts_def)
    then have "n \<in> listing (r_svcs r) h"
      using d by (auto simp: listing_def)
    then show "listing (r_svcs r) h \<noteq> {}" by blast
  next
    assume "listing (r_svcs r) h \<noteq> {}"
    then obtain n s where "map_of (r_svcs r) n = Some s" "h \<in> set (slice (s_VirtualHosts s))"
      by (auto simp: listing_def)
    then show "h \<in> listed_hosts r"
      by (auto simp: listed_hosts_def dest!: map_of_SomeD)
  qed
  have "h \<in> vhost_keys r \<longleftrightarrow> h \<in> listed_hosts r" for h
    unfolding k l using ok [of h]
    by (cases "map_of (r_vhosts r) h") (auto simp: vhost_ok_def)
  then show ?thesis by blast
qed

text \<open>
  For clean lists the table follows the services.  In every registry state reached
  from the initial one by \<open>AddService\<close>, \<open>UpdateService\<close>, \<open>RemoveService\<close> (and
  \<open>AddBackend\<close>, \<open>RemoveBackend\<close>, \<open>GetVHostService\<close>, changes of the global defaults),
  where the configurations handed to \<open>AddService\<close> and \<open>UpdateService\<close> list virtual
  hosts without blank names and without repetitions: a hostname is a key of the table of
  virtual hosts if and only if a registered service lists it.
\<close>

lemma vhost_table_matches_services:
  assumes "reachable env r"
  shows "vhost_keys r = listed_hosts r"
  using assms by (intro vhosts_inv_keys reachable_inv)

lemma the_result:
  "\<not> Option.is_none x \<Longrightarrow> x = Some (fst (the x), snd (the x))"
  by (cases x) (simp_all add: Option.is_none_def)

text \<open>
  So with clean lists a host that no service lists any more has no entry, and adding a
  service that lists it gives it one again: service \<open>a\<close> moves from \<open>h.example\<close> to
  \<open>g.example\<close>, service \<open>b\<close>, the other one listing \<open>h.example\<close>, is removed, then added
  again.
\<close>

lemma vhost_table_follows_services:
  "reachable env0 reg_moved_only
   \<and> vhost_keys reg_moved_only = listed_hosts reg_moved_only
   \<and> vhost_table reg_a_moved = [(''h.example'', [''b''], 0), (''g.example'', [''a''], 0)]
   \<and> vhost_table reg_moved_only = [(''g.example'', [''a''], 0)]
   \<and> reachable env0 reg_b_again
   \<and> vhost_keys reg_b_again = listed_hosts reg_b_again
   \<and> vhost_table reg_b_again = [(''g.example'', [''a''], 0), (''h.example'', [''b''], 0)]"
proof -
  have c: "clean_hosts env0 (sc_VirtualHosts svc_a_cfg)"
    "clean_hosts env0 (sc_VirtualHosts svc_b_cfg)"
    "clean_hosts env0 (sc_VirtualHosts (svc_a_cfg\<lparr>sc_VirtualHosts := Some [''g.example'']\<rparr>))"
    by code_simp+
  have e: "env0\<lparr>range_order := range_order env0\<rparr> = env0"
    by simp
  have "\<not> Option.is_none (AddService env0 Registry_init svc_a_cfg)"
    by code_simp
  from the_result [OF this]
  have 1: "reachable env0 reg_a"
    unfolding reg_a_def by (rule reach_AddService [OF reach_init c(1)])
  have "\<not> Option.is_none (AddService env0 reg_a svc_b_cfg)"
    by code_simp
  from the_result [OF this]
  have 2: "reachable env0 reg_a_b"
    unfolding reg_a_b_def by (rule reach_AddService [OF 1 c(2)])
  have "\<not> Option.is_none (UpdateService env0 reg_a_b
           (svc_a_cfg\<lparr>sc_VirtualHosts := Some [''g.example'']\<rparr>))"
    by code_simp
  from the_result [OF this]
  have 3: "reachable env0 reg_a_moved"
    unfolding reg_a_moved_def
    by (intro reach_UpdateService [OF 2 c(3), of "range_order env0"]) (simp only: e)
  have 4: "reachable env0 reg_moved_only"
    unfolding reg_moved_only_def
    by (rule reach_RemoveService [OF 3, of "''b''" "fst (RemoveService reg_a_moved ''b'')"])
       simp
  have "\<not> Option.is_none (AddService env0 reg_moved_only svc_b_cfg)"
    by code_simp
  from the_result [OF this]
  have 5: "reachable env0 reg_b_again"
    unfolding reg_b_again_def by (rule reach_AddService [OF 4 c(2)])
  have t1: "vhost_table reg_a_moved = [(''h.example'', [''b''], 0), (''g.example'', [''a''], 0)]"
    by code_simp
  have t2: "vhost_table reg_moved_only = [(''g.example'', [''a''], 0)]"
    by code_simp
  have t3: "vhost_table reg_b_again = [(''g.example'', [''a''], 0), (''h.example'', [''b''], 0)]"
    by code_simp
  from 4 5 vhost_table_matches_services [OF 4] vhost_table_matches_services [OF 5]
    t1 t2 t3
  show ?thesis by blast
qed

text \<open>
  C8, as the code has it.  The table of virtual hosts loses a hostname that a service
  still lists.  A service \<open>web\<close> is added with the virtual hosts \<open>a.example\<close>,
  \<open>a.example\<close>: the table gets the entry \<open>a.example\<close> with \<open>web\<close> in it.  The service is
  then updated to the virtual hosts \<open>a.example\<close>.  Both calls return no error.  The
  linear merge of \<open>updateVHosts\<close> pairs the first old name with the new one and takes the
  second old name for removed, so \<open>web\<close> leaves the entry, which is empty and is deleted:
  \<open>web\<close> lists \<open>a.example\<close>, the table has no key \<open>a.example\<close>, and \<open>GetVHostService\<close>
  answers \<open>nil\<close> for it.  The same happens without a repeated name in the configuration:
  added with the virtual hosts \<open>""\<close>, \<open>a.example\<close>, the service keeps the slice that
  \<open>filterEmpty\<close> compacts in place and so reads \<open>a.example\<close>, \<open>a.example\<close>; the same update
  then empties the table.
\<close>

theorem C8_listed_host_without_entry:
  "map_option fst (AddService env0 Registry_init repeated_cfg) = Some None
   \<and> hosts_listed reg_repeated = [(''web'', Some [''a.example'', ''a.example''])]
   \<and> vhost_table reg_repeated = [(''a.example'', [''web''], 0)]
   \<and> map_option fst (UpdateService env0 reg_repeated repeated_update) = Some None
   \<and> hosts_listed reg_repeated_updated = [(''web'', Some [''a.example''])]
   \<and> vhost_table reg_repeated_updated = []
   \<and> ''a.example'' \<in> listed_hosts reg_repeated_updated
   \<and> ''a.example'' \<notin> vhost_keys reg_repeated_updated
   \<and> map_option fst (GetVHostService reg_repeated_updated ''a.example'') = Some None
   \<and> map_option fst (AddService env0 Registry_init blank_first_cfg) = Some None
   \<and> hosts_listed reg_blank_first = [(''web'', Some [''a.example'', ''a.example''])]
   \<and> vhost_table reg_blank_first = [(''a.example'', [''web''], 0)]
   \<and> map_option fst (UpdateService env0 reg_blank_first repeated_update) = Some None
   \<and> hosts_listed reg_blank_first_updated = [(''web'', Some [''a.example''])]
   \<and> vhost_table reg_blank_first_updated = []
   \<and> ''a.example'' \<in> listed_hosts reg_blank_first_updated
   \<and> ''a.example'' \<notin> vhost_keys reg_blank_first_updated
   \<and> map_option fst (GetVHostService reg_blank_first_updated ''a.example'') = Some None"
proof -
  have a1: "map_option fst (AddService env0 Registry_init repeated_cfg) = Some None"
    by code_simp
  have a2: "hosts_listed reg_repeated = [(''web'', Some [''a.example'', ''a.example''])]"
    by code_simp
  have a3: "vhost_table reg_repeated = [(''a.example'', [''web''], 0)]"
    by code_simp
  have a4: "map_option fst (UpdateService env0 reg_repeated repeated_update) = Some None"
    by code_simp
  have a5: "hosts_listed reg_repeated_updated = [(''web'', Some [''a.example''])]"
    by code_simp
  have a6: "vhost_table reg_repeated_updated = []"
    by code_simp
  have a7: "''a.example'' \<in> listed_hosts reg_repeated_updated"
    using a5 by (auto simp: listed_hosts_def hosts_listed_def slice_def)
  have a8: "''a.example'' \<notin> vhost_keys reg_repeated_updated"
    using a6 by (simp add: vhost_keys_def vhost_table_def)
  have a9: "map_option fst (GetVHostService reg_repeated_updated ''a.example'') = Some None"
    by code_simp
  have b1: "map_option fst (AddService env0 Registry_init blank_first_cfg) = Some None"
    by code_simp
  have b2: "hosts_listed reg_blank_first = [(''web'', Some [''a.example'', ''a.example''])]"
    by code_simp
  have b3: "vhost_table reg_blank_first = [(''a.example'', [''web''], 0)]"
    by code_simp
  have b4: "map_option fst (UpdateService env0 reg_blank_first repeated_update) = Some None"
    by code_simp
  have b5: "hosts_listed reg_blank_first_updated = [(''web'', Some [''a.example''])]"
    by code_simp
  have b6: "vhost_table reg_blank_first_updated = []"
    by code_simp
  have b7: "''a.example'' \<in> listed_hosts reg_blank_first_updated"
    using b5 by (auto simp: listed_hosts_def hosts_listed_def slice_def)
  have b8: "''a.example'' \<notin> vhost_keys reg_blank_first_updated"
    using b6 by (simp add: vhost_keys_def vhost_table_def)
  have b9: "map_option fst (GetVHostService reg_blank_first_updated ''a.example'') = Some None"
    by code_simp
  from a1 a2 a3 a4 a5 a6 a7 a8 a9 b1 b2 b3 b4 b5 b6 b7 b8 b9
  show ?thesis by blast
qed

text \<open>
  Two remarks on blank names.  A blank name that comes last in the list of an added
  service stays in the list the service holds, while the table, built from the filtered
  list, has no entry for it.  An update that names other hosts for that service then
  looks the blank name up in the table, finds nothing, and panics on \<open>vhost.Len()\<close>.
\<close>

lemma AddService_keeps_blank_host:
  "map_option fst (AddService env0 Registry_init blank_cfg) = Some None
   \<and> hosts_listed blank_registry = [(''web'', Some [''a.example'', ''''])]
   \<and> vhost_table blank_registry = [(''a.example'', [''web''], 0)]"
proof -
  have "map_option fst (AddService env0 Registry_init blank_cfg) = Some None"
    by code_simp
  moreover have "hosts_listed blank_registry = [(''web'', Some [''a.example'', ''''])]"
    by code_simp
  moreover have "vhost_table blank_registry = [(''a.example'', [''web''], 0)]"
    by code_simp
  ultimately show ?thesis by blast
qed

lemma updateVHosts_blank_host_panics:
  "Option.bind (AddService env0 Registry_init blank_cfg)
     (\<lambda>(err, r). UpdateService env0 r
                    (blank_cfg\<lparr>sc_VirtualHosts := Some [''b.example'']\<rparr>))
   = None"
  by code_simp

end
